theory Spec2Isabelle
  imports Main "HOL-Library.AList"
begin

section \<open>Annotating an uploaded workbook with estimates\<close>

text \<open>
  A shallow embedding of \<^verbatim>\<open>lib/annotate-uploaded-excel\<close> (the second document of
  \<^verbatim>\<open>src/pages/ResultsPage.tsx\<close>, lines 557 to 775): the function
  \<^verbatim>\<open>exportUploadedExcelWithEstimates\<close> and its helpers.

  Strings are lists of 8-bit characters. White space is the ASCII part of the class
  \<^verbatim>\<open>\s\<close> (space, tab, line feed, vertical tab, form feed, carriage return) and case
  folding acts on the letters A to Z.
\<close>

subsection \<open>Numbers and cells\<close>

text \<open>
  A JavaScript number is either finite or not. The finite numbers of the model are the
  integers (feature indices and hour counts); \<open>NaN\<close> stands for the values that
  \<^verbatim>\<open>Number.isFinite\<close> rejects. A cell is a string or a number; in an array of arrays
  the blank cell is the empty string.
\<close>

datatype number = Fin int | NaN

datatype cell = Text string | Num number

type_synonym row = "cell list"

type_synonym aoa = "row list"

text \<open>Reading \<^verbatim>\<open>xs[i]\<close>: \<^verbatim>\<open>undefined\<close> (here \<open>None\<close>) out of range.\<close>

fun nth_opt :: "'a list \<Rightarrow> nat \<Rightarrow> 'a option" where
  "nth_opt [] i = None"
| "nth_opt (x # xs) 0 = Some x"
| "nth_opt (x # xs) (Suc i) = nth_opt xs i"

subsection \<open>Characters\<close>

definition is_space :: "char \<Rightarrow> bool" where
  "is_space c = (let n = (of_char c :: nat) in n = 32 \<or> (9 \<le> n \<and> n \<le> 13))"

definition lower_char :: "char \<Rightarrow> char" where
  "lower_char c =
     (let n = (of_char c :: nat) in if 65 \<le> n \<and> n \<le> 90 then char_of (n + 32) else c)"

definition is_digit :: "char \<Rightarrow> bool" where
  "is_digit c = (let n = (of_char c :: nat) in 48 \<le> n \<and> n \<le> 57)"

definition digit_char :: "nat \<Rightarrow> char" where
  "digit_char d = char_of (48 + d)"

definition toLowerCase :: "string \<Rightarrow> string" where
  "toLowerCase s = map lower_char s"

definition trim :: "string \<Rightarrow> string" where
  "trim s = rev (dropWhile is_space (rev (dropWhile is_space s)))"

text \<open>
  \<^verbatim>\<open>s.replace(/\s+/g, " ")\<close>: every maximal run of white space becomes one space.
  The flag says that the character before was white space, so that the run it belongs
  to has its space already.
\<close>

fun collapse_run :: "bool \<Rightarrow> string \<Rightarrow> string" where
  "collapse_run in_run [] = []"
| "collapse_run in_run (c # cs) =
     (if is_space c then (if in_run then collapse_run True cs
                          else CHR '' '' # collapse_run True cs)
      else c # collapse_run False cs)"

definition collapse_ws :: "string \<Rightarrow> string" where
  "collapse_ws s = collapse_run False s"

subsection \<open>Conversions between numbers and strings\<close>

fun string_of_nat :: "nat \<Rightarrow> string" where
  "string_of_nat n =
     (if n < 10 then [digit_char n] else string_of_nat (n div 10) @ [digit_char (n mod 10)])"

declare string_of_nat.simps [simp del]

text \<open>
  \<^verbatim>\<open>String(n)\<close> for a number: the decimal digits, which is how JavaScript writes an
  integer below \<open>10\<^sup>2\<^sup>1\<close> in absolute value.
\<close>

fun string_of_number :: "number \<Rightarrow> string" where
  "string_of_number NaN = ''NaN''"
| "string_of_number (Fin i) =
     (if i < 0 then CHR ''-'' # string_of_nat (nat (- i)) else string_of_nat (nat i))"

text \<open>
  The value of a digit in a radix up to 16, and of a run of digits. \<open>digit_of\<close> is 16
  for a character that is no digit.
\<close>

definition digit_of :: "char \<Rightarrow> nat" where
  "digit_of c =
     (let n = (of_char c :: nat)
      in if 48 \<le> n \<and> n \<le> 57 then n - 48
         else if 97 \<le> n \<and> n \<le> 102 then n - 87
         else if 65 \<le> n \<and> n \<le> 70 then n - 55
         else 16)"

definition digits_in :: "nat \<Rightarrow> string \<Rightarrow> bool" where
  "digits_in radix ds = (ds \<noteq> [] \<and> list_all (\<lambda>c. digit_of c < radix) ds)"

definition digits_value :: "nat \<Rightarrow> string \<Rightarrow> int" where
  "digits_value radix ds = foldl (\<lambda>acc c. int radix * acc + int (digit_of c)) 0 ds"

text \<open>
  The Number value of a positive rational \<open>a / b\<close> (\<open>a\<close> and \<open>b\<close> positive integers): the nearest double, ties to the even
  mantissa. \<open>bit_length\<close> counts the binary digits; \<open>double_exponent\<close> is the exponent
  \<open>e\<close> of the unit in the last place, with \<open>2\<^sup>5\<^sup>2 \<le> a / (b 2\<^sup>e) < 2\<^sup>5\<^sup>3\<close> for a normal
  double and \<open>e = -1074\<close> for a subnormal one; the mantissa is \<open>a / (b 2\<^sup>e)\<close> rounded.
\<close>

function bit_length :: "int \<Rightarrow> nat" where
  "bit_length n = (if n \<le> 0 then 0 else Suc (bit_length (n div 2)))"
  by pat_completeness auto
termination
  by (relation "measure nat") auto

declare bit_length.simps [simp del]

definition round_half_even :: "int \<Rightarrow> int \<Rightarrow> int" where
  "round_half_even a b =
     (let q = a div b; r = a mod b
      in if b < 2 * r \<or> (2 * r = b \<and> odd q) then q + 1 else q)"

definition double_exponent :: "int \<Rightarrow> int \<Rightarrow> int" where
  "double_exponent a b =
     (let k = int (bit_length a) - int (bit_length b);
          floor_log = (if (if 0 \<le> k then b * 2 ^ nat k \<le> a else b \<le> a * 2 ^ nat (- k))
                       then k else k - 1)
      in max (floor_log - 52) (- 1074))"

definition double_mantissa :: "int \<Rightarrow> int \<Rightarrow> int \<Rightarrow> int" where
  "double_mantissa a b e =
     (if 0 \<le> e then round_half_even a (b * 2 ^ nat e)
      else round_half_even (a * 2 ^ nat (- e)) b)"

text \<open>
  The number of the model for \<open>\<plusminus> a / b\<close>. A double of 1024 binary digits or more is
  infinite, hence \<open>NaN\<close> here. A finite double that is not an integer is no number of
  the model either; it is given as \<open>NaN\<close> too, which has the same effect where the
  result is used (the index lookup), since no feature index of the model equals it.
\<close>

definition number_of_ratio :: "bool \<Rightarrow> int \<Rightarrow> int \<Rightarrow> number" where
  "number_of_ratio negative a b =
     (if a = 0 then Fin 0
      else
        (let e = double_exponent a b;
             m = double_mantissa a b e;
             sign = (if negative then - 1 else 1)
         in if 0 \<le> e then
              (if int (bit_length m) + e \<le> 1024 then Fin (sign * (m * 2 ^ nat e))
               else NaN)
            else
              (if m mod 2 ^ nat (- e) = 0 then Fin (sign * (m div 2 ^ nat (- e)))
               else NaN)))"

text \<open>
  The exponent part of a decimal literal, \<^verbatim>\<open>e\<close> or \<^verbatim>\<open>E\<close> with an optionally signed
  run of digits; the empty rest is the exponent 0.
\<close>

definition exponent_part :: "string \<Rightarrow> int option" where
  "exponent_part r =
     (case r of
        [] \<Rightarrow> Some 0
      | c # t \<Rightarrow>
          if c = CHR ''e'' \<or> c = CHR ''E'' then
            (case t of
               [] \<Rightarrow> None
             | d # ds \<Rightarrow>
                 if d = CHR ''-'' then
                   (if digits_in 10 ds then Some (- digits_value 10 ds) else None)
                 else if d = CHR ''+'' then
                   (if digits_in 10 ds then Some (digits_value 10 ds) else None)
                 else
                   (if digits_in 10 (d # ds) then Some (digits_value 10 (d # ds)) else None))
          else None)"

text \<open>
  An unsigned decimal literal: digits, optionally a point and more digits, or a point
  and digits; then optionally an exponent part.
\<close>

definition unsigned_decimal :: "bool \<Rightarrow> string \<Rightarrow> number" where
  "unsigned_decimal negative t =
     (let ip = takeWhile is_digit t;
          r1 = dropWhile is_digit t;
          fp = (case r1 of
                  [] \<Rightarrow> []
                | c # u \<Rightarrow> if c = CHR ''.'' then takeWhile is_digit u else []);
          r2 = (case r1 of
                  [] \<Rightarrow> []
                | c # u \<Rightarrow> if c = CHR ''.'' then dropWhile is_digit u else r1)
      in if ip = [] \<and> fp = [] then NaN
         else
           (case exponent_part r2 of
              None \<Rightarrow> NaN
            | Some ex \<Rightarrow>
                (let m = digits_value 10 (ip @ fp);
                     scale = ex - int (length fp)
                 in if 0 \<le> scale then number_of_ratio negative (m * 10 ^ nat scale) 1
                    else number_of_ratio negative m (10 ^ nat (- scale)))))"

text \<open>A literal with a radix prefix: \<^verbatim>\<open>0x\<close>, \<^verbatim>\<open>0o\<close> or \<^verbatim>\<open>0b\<close> in either case.\<close>

definition non_decimal :: "string \<Rightarrow> int option" where
  "non_decimal t =
     (case t of
        z # x # ds \<Rightarrow>
          if z \<noteq> CHR ''0'' then None
          else if x = CHR ''x'' \<or> x = CHR ''X'' then
            (if digits_in 16 ds then Some (digits_value 16 ds) else None)
          else if x = CHR ''o'' \<or> x = CHR ''O'' then
            (if digits_in 8 ds then Some (digits_value 8 ds) else None)
          else if x = CHR ''b'' \<or> x = CHR ''B'' then
            (if digits_in 2 ds then Some (digits_value 2 ds) else None)
          else None
      | _ \<Rightarrow> None)"

text \<open>
  \<^verbatim>\<open>Number(s)\<close> for a string: white space is trimmed; the empty string is 0; the
  string is read as a literal with a radix prefix, or as an optionally signed decimal
  literal or \<^verbatim>\<open>Infinity\<close>; every other string is \<open>NaN\<close>.
\<close>

definition StringToNumber :: "string \<Rightarrow> number" where
  "StringToNumber s =
     (case trim s of
        [] \<Rightarrow> Fin 0
      | c # cs \<Rightarrow>
          (case non_decimal (c # cs) of
             Some n \<Rightarrow> number_of_ratio False n 1
           | None \<Rightarrow>
               (let negative = (c = CHR ''-'');
                    u = (if c = CHR ''-'' \<or> c = CHR ''+'' then cs else c # cs)
                in if u = ''Infinity'' then NaN else unsigned_decimal negative u)))"

text \<open>\<^verbatim>\<open>Number(v)\<close> for a cell read from a row: \<^verbatim>\<open>undefined\<close> is \<open>NaN\<close>.\<close>

fun Number :: "cell option \<Rightarrow> number" where
  "Number None = NaN"
| "Number (Some (Num n)) = n"
| "Number (Some (Text s)) = StringToNumber s"

text \<open>\<^verbatim>\<open>String(v ?? "")\<close>.\<close>

fun String :: "cell option \<Rightarrow> string" where
  "String None = []"
| "String (Some (Text s)) = s"
| "String (Some (Num n)) = string_of_number n"

subsection \<open>Normalisation and blank rows (lines 572 to 590)\<close>

definition norm :: "cell option \<Rightarrow> string" where
  "norm v = toLowerCase (trim (collapse_ws (String v)))"

definition isRowEmpty :: "row \<Rightarrow> bool" where
  "isRowEmpty r = list_all (\<lambda>c. norm (Some c) = []) r"

text \<open>
  The loop of \<^verbatim>\<open>findHeaderRowIndex\<close>, with \<open>i\<close> the index of the first row of the
  rest; \<open>None\<close> when the loop ends without returning.
\<close>

fun findHeaderRowIndex_from :: "nat \<Rightarrow> aoa \<Rightarrow> nat option" where
  "findHeaderRowIndex_from i [] = None"
| "findHeaderRowIndex_from i (r # rest) =
     (if length r > 0 \<and> \<not> isRowEmpty r then Some i
      else findHeaderRowIndex_from (Suc i) rest)"

definition findHeaderRowIndex :: "aoa \<Rightarrow> nat" where
  "findHeaderRowIndex a = (case findHeaderRowIndex_from 0 a of Some i \<Rightarrow> i | None \<Rightarrow> 0)"

subsection \<open>Header patterns (lines 592 to 599 and 676 to 688)\<close>

text \<open>
  The regular expressions of the source are anchored at both ends and built from three
  forms only: a literal, an optional character (\<^verbatim>\<open>\.?\<close>) and a run of white space
  (\<^verbatim>\<open>\s*\<close>). \<open>re_test\<close> is \<^verbatim>\<open>re.test(s)\<close> for such an expression, with backtracking.
\<close>

datatype atom = Lit string | Opt char | Spaces

fun re_test :: "atom list \<Rightarrow> string \<Rightarrow> bool" where
  "re_test [] s = (s = [])"
| "re_test (Lit l # as) s = (take (length l) s = l \<and> re_test as (drop (length l) s))"
| "re_test (Opt c # as) [] = re_test as []"
| "re_test (Opt c # as) (x # xs) = ((x = c \<and> re_test as xs) \<or> re_test as (x # xs))"
| "re_test (Spaces # as) [] = re_test as []"
| "re_test (Spaces # as) (x # xs) =
     ((is_space x \<and> re_test (Spaces # as) xs) \<or> re_test as (x # xs))"

definition featureCandidates :: "atom list list" where
  "featureCandidates =
     [[Lit ''feature''], [Lit ''features''], [Lit ''feature'', Spaces, Lit ''name''],
      [Lit ''title''], [Lit ''name'']]"

definition featureIndexCandidates :: "atom list list" where
  "featureIndexCandidates =
     [[Lit ''feature'', Spaces, Lit ''index''], [Lit ''index''],
      [Lit ''sr'', Opt CHR ''.'', Spaces, Lit ''no'', Opt CHR ''.''],
      [Lit ''s'', Opt CHR ''.'', Spaces, Lit ''no'', Opt CHR ''.'']]"

text \<open>\<^verbatim>\<open>h.findIndex(p)\<close>, with \<open>None\<close> for -1.\<close>

fun findIndex :: "('a \<Rightarrow> bool) \<Rightarrow> 'a list \<Rightarrow> nat option" where
  "findIndex p [] = None"
| "findIndex p (x # xs) = (if p x then Some 0 else map_option Suc (findIndex p xs))"

fun pickColumnIndex_loop :: "string list \<Rightarrow> atom list list \<Rightarrow> nat option" where
  "pickColumnIndex_loop h [] = None"
| "pickColumnIndex_loop h (re # res) =
     (case findIndex (re_test re) h of
        Some idx \<Rightarrow> Some idx
      | None \<Rightarrow> pickColumnIndex_loop h res)"

definition pickColumnIndex :: "row \<Rightarrow> atom list list \<Rightarrow> nat option" where
  "pickColumnIndex headerRow candidates =
     pickColumnIndex_loop (map (\<lambda>x. norm (Some x)) headerRow) candidates"

subsection \<open>Result records (lines 560 to 570 and 629 to 651)\<close>

datatype Department = frontend | backend | mobile | htmlCss | aiMl

datatype HoursKey = key_min | key_mostLikely | key_max

record HoursRange =
  min_hours :: number
  mostLikely :: number
  max_hours :: number

text \<open>
  \<open>ranges\<close> is the object \<^verbatim>\<open>Record<Department, HoursRange>\<close>, as the list of its
  entries; \<^verbatim>\<open>hit.ranges[d]\<close> is \<open>map_of (ranges hit) d\<close>, and the source allows for a
  missing entry (\<^verbatim>\<open>range?.min ?? ""\<close>).
\<close>

record EditableRow =
  featureIndex :: number
  batch :: string
  featureName :: string
  featureDescription :: string
  confidence :: string
  complexity :: string
  techRemarks :: string
  userRemark :: string
  ranges :: "(Department \<times> HoursRange) list"

definition DEPARTMENTS :: "Department list" where
  "DEPARTMENTS = [frontend, backend, mobile, htmlCss, aiMl]"

fun deptLabel :: "Department \<Rightarrow> string" where
  "deptLabel frontend = ''Frontend''"
| "deptLabel backend = ''Backend''"
| "deptLabel mobile = ''Mobile''"
| "deptLabel htmlCss = ''HTML/CSS''"
| "deptLabel aiMl = ''AI/ML''"

fun keyLabel :: "HoursKey \<Rightarrow> string" where
  "keyLabel key_min = ''Min''"
| "keyLabel key_mostLikely = ''MostLikely''"
| "keyLabel key_max = ''Max''"

definition headerLabel :: "Department \<Rightarrow> HoursKey \<Rightarrow> string" where
  "headerLabel dept k = ''AI '' @ deptLabel dept @ '' '' @ keyLabel k"

text \<open>Lines 707 to 720: three headers for each department, then the four scalar ones.\<close>

fun departmentHeaders :: "Department list \<Rightarrow> string list" where
  "departmentHeaders [] = []"
| "departmentHeaders (d # ds) =
     [headerLabel d key_min, headerLabel d key_mostLikely, headerLabel d key_max]
       @ departmentHeaders ds"

definition appendedHeaders :: "string list" where
  "appendedHeaders =
     departmentHeaders DEPARTMENTS
       @ [''AI Confidence'', ''AI Complexity'', ''AI Tech Remarks'', ''AI User Remark'']"

subsection \<open>Lookups built from the result records (lines 697 to 703)\<close>

text \<open>
  One pass over the records fills both maps: the index map is set for every record, so
  a later record replaces an earlier one with the same key; the name map is set only
  for a key that is not empty and not yet present.
\<close>

text \<open>The key of a record in the name map: \<^verbatim>\<open>norm(r.featureName)\<close>.\<close>

definition nameKey :: "EditableRow \<Rightarrow> string" where
  "nameKey r = norm (Some (Text (featureName r)))"

definition lookup_step ::
  "(string \<rightharpoonup> EditableRow) \<times> (number \<rightharpoonup> EditableRow) \<Rightarrow> EditableRow
     \<Rightarrow> (string \<rightharpoonup> EditableRow) \<times> (number \<rightharpoonup> EditableRow)" where
  "lookup_step maps r =
     (let byName = fst maps;
          byIndex = (snd maps)(featureIndex r \<mapsto> r);
          k = nameKey r
      in if k \<noteq> [] \<and> byName k = None then (byName(k \<mapsto> r), byIndex)
         else (byName, byIndex))"

definition lookups ::
  "EditableRow list \<Rightarrow> (string \<rightharpoonup> EditableRow) \<times> (number \<rightharpoonup> EditableRow)" where
  "lookups rs = foldl lookup_step (Map.empty, Map.empty) rs"

definition byFeatureName :: "EditableRow list \<Rightarrow> string \<rightharpoonup> EditableRow" where
  "byFeatureName rs = fst (lookups rs)"

definition byFeatureIndex :: "EditableRow list \<Rightarrow> number \<rightharpoonup> EditableRow" where
  "byFeatureIndex rs = snd (lookups rs)"

subsection \<open>Sorting the records by feature index (lines 742 to 744)\<close>

text \<open>
  The comparator is \<^verbatim>\<open>Number(a.featureIndex) - Number(b.featureIndex)\<close>; a result that
  is \<open>NaN\<close> counts as 0, as the language prescribes. \<^verbatim>\<open>Array.prototype.sort\<close> is stable;
  the model inserts the records from the right, each before the first record that
  does not compare smaller. When some feature index is \<open>NaN\<close> the comparator is not
  an ordering and the language leaves the order to the implementation: the theorems on
  the sorted order below are about records whose indices are all finite.
\<close>

fun number_minus :: "number \<Rightarrow> number \<Rightarrow> number" where
  "number_minus (Fin a) (Fin b) = Fin (a - b)"
| "number_minus _ _ = NaN"

definition comparefn :: "EditableRow \<Rightarrow> EditableRow \<Rightarrow> number" where
  "comparefn a b = number_minus (featureIndex a) (featureIndex b)"

definition SortCompare :: "EditableRow \<Rightarrow> EditableRow \<Rightarrow> int" where
  "SortCompare a b = (case comparefn a b of Fin v \<Rightarrow> v | NaN \<Rightarrow> 0)"

fun sort_insert :: "EditableRow \<Rightarrow> EditableRow list \<Rightarrow> EditableRow list" where
  "sort_insert x [] = [x]"
| "sort_insert x (y # ys) =
     (if SortCompare x y \<le> 0 then x # y # ys else y # sort_insert x ys)"

definition sortByFeatureIndex :: "EditableRow list \<Rightarrow> EditableRow list" where
  "sortByFeatureIndex rs = foldr sort_insert rs []"

subsection \<open>Resolving the record of a data row (lines 729 to 747)\<close>

definition indexMatch :: "EditableRow list \<Rightarrow> nat option \<Rightarrow> row \<Rightarrow> EditableRow option" where
  "indexMatch rs featureIndexCol rw =
     (case featureIndexCol of
        None \<Rightarrow> None
      | Some c \<Rightarrow>
          (case Number (nth_opt rw c) of
             Fin v \<Rightarrow> byFeatureIndex rs (Fin v)
           | NaN \<Rightarrow> None))"

definition nameMatch :: "EditableRow list \<Rightarrow> nat option \<Rightarrow> row \<Rightarrow> EditableRow option" where
  "nameMatch rs featureCol rw =
     (case featureCol of
        None \<Rightarrow> None
      | Some c \<Rightarrow> byFeatureName rs (norm (nth_opt rw c)))"

definition positionalMatch :: "EditableRow list \<Rightarrow> nat \<Rightarrow> nat \<Rightarrow> EditableRow option" where
  "positionalMatch rs headerRowIndex r =
     (let sorted = sortByFeatureIndex rs;
          dataRowOrdinal = r - (headerRowIndex + 1)
      in nth_opt sorted dataRowOrdinal)"

definition resolveRow ::
  "EditableRow list \<Rightarrow> nat option \<Rightarrow> nat option \<Rightarrow> nat \<Rightarrow> nat \<Rightarrow> row \<Rightarrow> EditableRow option" where
  "resolveRow rs featureIndexCol featureCol headerRowIndex r rw =
     (case indexMatch rs featureIndexCol rw of
        Some hit \<Rightarrow> Some hit
      | None \<Rightarrow>
          (case nameMatch rs featureCol rw of
             Some hit \<Rightarrow> Some hit
           | None \<Rightarrow> positionalMatch rs headerRowIndex r))"

subsection \<open>Filling a data row (lines 725 to 766)\<close>

text \<open>
  \<^verbatim>\<open>xs[i] = v\<close>: in range the element is replaced; beyond the end JavaScript extends
  the array, and the holes it leaves are given as \<open>hole\<close>.
\<close>

definition assign :: "'a \<Rightarrow> 'a list \<Rightarrow> nat \<Rightarrow> 'a \<Rightarrow> 'a list" where
  "assign hole xs i v =
     (if i < length xs then xs[i := v] else xs @ replicate (i - length xs) hole @ [v])"

text \<open>\<^verbatim>\<open>while (row.length < n) row.push("")\<close>.\<close>

definition pad :: "row \<Rightarrow> nat \<Rightarrow> row" where
  "pad rw n = rw @ replicate (n - length rw) (Text [])"

text \<open>\<^verbatim>\<open>range?.min ?? ""\<close> and its two siblings.\<close>

fun rangeCell :: "HoursRange option \<Rightarrow> HoursKey \<Rightarrow> cell" where
  "rangeCell None k = Text []"
| "rangeCell (Some rg) key_min = Num (min_hours rg)"
| "rangeCell (Some rg) key_mostLikely = Num (mostLikely rg)"
| "rangeCell (Some rg) key_max = Num (max_hours rg)"

text \<open>The loop of lines 753 to 758; the state is the row and the column counter \<open>c\<close>.\<close>

fun writeDepartments :: "EditableRow \<Rightarrow> Department list \<Rightarrow> row \<times> nat \<Rightarrow> row \<times> nat" where
  "writeDepartments hit [] st = st"
| "writeDepartments hit (d # ds) (rw, c) =
     (let range = map_of (ranges hit) d;
          rw1 = assign (Text []) rw c (rangeCell range key_min);
          rw2 = assign (Text []) rw1 (c + 1) (rangeCell range key_mostLikely);
          rw3 = assign (Text []) rw2 (c + 2) (rangeCell range key_max)
      in writeDepartments hit ds (rw3, c + 3))"

definition writeHit :: "EditableRow \<Rightarrow> nat \<Rightarrow> row \<Rightarrow> row" where
  "writeHit hit baseLen rw =
     (case writeDepartments hit DEPARTMENTS (rw, baseLen) of
        (rw0, c) \<Rightarrow>
          (let rw1 = assign (Text []) rw0 c (Text (confidence hit));
               rw2 = assign (Text []) rw1 (c + 1) (Text (complexity hit));
               rw3 = assign (Text []) rw2 (c + 2) (Text (techRemarks hit));
               rw4 = assign (Text []) rw3 (c + 3) (Text (userRemark hit))
           in rw4))"

text \<open>One iteration of the loop over the data rows, for the row \<open>rw\<close> at index \<open>r\<close>.\<close>

definition fillRow ::
  "EditableRow list \<Rightarrow> nat option \<Rightarrow> nat option \<Rightarrow> nat \<Rightarrow> nat \<Rightarrow> nat \<Rightarrow> row \<Rightarrow> row" where
  "fillRow rs featureIndexCol featureCol headerRowIndex baseLen r rw =
     (if isRowEmpty rw then rw
      else
        (let hit = resolveRow rs featureIndexCol featureCol headerRowIndex r rw;
             padded = pad rw (baseLen + length appendedHeaders)
         in case hit of None \<Rightarrow> padded | Some h \<Rightarrow> writeHit h baseLen padded))"

text \<open>
  The loop itself. Iteration \<open>r\<close> reads and writes the row at index \<open>r\<close> only, so the
  loop is a pass over the rows after the header, \<open>r\<close> counting up with them.
\<close>

fun fillRows ::
  "EditableRow list \<Rightarrow> nat option \<Rightarrow> nat option \<Rightarrow> nat \<Rightarrow> nat \<Rightarrow> nat \<Rightarrow> aoa \<Rightarrow> aoa" where
  "fillRows rs featureIndexCol featureCol headerRowIndex baseLen r [] = []"
| "fillRows rs featureIndexCol featureCol headerRowIndex baseLen r (rw # rest) =
     fillRow rs featureIndexCol featureCol headerRowIndex baseLen r rw
       # fillRows rs featureIndexCol featureCol headerRowIndex baseLen (Suc r) rest"

subsection \<open>The annotation of the selected sheet (lines 673 to 766)\<close>

text \<open>
  \<open>None\<close> is the error thrown at line 691, when neither key column is found. The
  header row is \<^verbatim>\<open>aoa[headerRowIndex] ?? []\<close>.
\<close>

definition annotate :: "EditableRow list \<Rightarrow> aoa \<Rightarrow> aoa option" where
  "annotate rs a =
     (let headerRowIndex = findHeaderRowIndex a;
          headerRow = (case nth_opt a headerRowIndex of Some h \<Rightarrow> h | None \<Rightarrow> []);
          featureCol = pickColumnIndex headerRow featureCandidates;
          featureIndexCol = pickColumnIndex headerRow featureIndexCandidates
      in if featureCol = None \<and> featureIndexCol = None then None
         else
           (let baseLen = length headerRow;
                a1 = assign [] a headerRowIndex (headerRow @ map Text appendedHeaders)
            in Some (take (Suc headerRowIndex) a1
                 @ fillRows rs featureIndexCol featureCol headerRowIndex baseLen
                     (Suc headerRowIndex) (drop (Suc headerRowIndex) a1))))"

subsection \<open>Workbooks and the export (lines 601 to 613 and 653 to 775)\<close>

text \<open>
  A worksheet is the grid of the cells of its range (\<^verbatim>\<open>!ref\<close>): \<open>ref_row\<close> and
  \<open>ref_col\<close> are the row and the column where the range starts, and row \<open>i\<close> of
  \<open>ref_cells\<close> holds the cells of the sheet row \<open>ref_row + i\<close> from the column
  \<open>ref_col\<close> on, \<open>None\<close> where no cell is stored. The rows of the list may differ in
  length (the cells after the last element are not stored); the width of the range is
  the greatest length. \<open>Sheets\<close> is the object of the worksheets by name, as the list
  of its entries. A file is its name and the workbook that \<^verbatim>\<open>XLSX.read\<close> parses from
  its bytes.
\<close>

record WorkSheet =
  ref_row :: nat
  ref_col :: nat
  ref_cells :: "cell option list list"

record WorkBook =
  SheetNames :: "string list"
  Sheets :: "(string \<times> WorkSheet) list"

record File =
  name :: string
  workbook :: WorkBook

record Params =
  originalFile :: "File option"
  rows :: "EditableRow list"
  outputFileName :: "string option"

datatype error =
  MissingFile | NoEstimatesProvided | NoSheetsFound | SheetNotFound | EmptySheet
  | MissingKeyColumn

text \<open>
  The export either throws, and then the second component is the workbook in memory at
  that moment (\<open>None\<close> before \<^verbatim>\<open>XLSX.read\<close>), or hands the written workbook and the
  file name to the download.
\<close>

datatype outcome = Threw error "WorkBook option" | Downloaded WorkBook string

text \<open>
  \<^verbatim>\<open>wb.SheetNames[1] ?? wb.SheetNames[0]\<close>, followed by the test \<^verbatim>\<open>!sheetName\<close>, which
  rejects \<^verbatim>\<open>undefined\<close> and the empty string.
\<close>

definition selectSheetName :: "WorkBook \<Rightarrow> string option" where
  "selectSheetName wb =
     (let sheetName = (case nth_opt (SheetNames wb) 1 of
                         Some n \<Rightarrow> Some n
                       | None \<Rightarrow> nth_opt (SheetNames wb) 0)
      in case sheetName of
           None \<Rightarrow> None
         | Some n \<Rightarrow> if n = [] then None else Some n)"

text \<open>
  The library's \<^verbatim>\<open>sheet_to_json\<close> under the options of the source. With
  \<^verbatim>\<open>header: 1\<close> every row of the range becomes an array indexed from the first column
  of the range; with \<^verbatim>\<open>defval: ""\<close> every column of the range has an element, the
  empty string where no cell is stored; with \<^verbatim>\<open>blankrows: false\<close> a row without any
  stored cell is left out.
\<close>

definition sheet_width :: "WorkSheet \<Rightarrow> nat" where
  "sheet_width ws = foldr (\<lambda>r w. max (length r) w) (ref_cells ws) 0"

definition hasStoredCell :: "cell option list \<Rightarrow> bool" where
  "hasStoredCell r = list_ex (\<lambda>c. c \<noteq> None) r"

definition json_cell :: "cell option list \<Rightarrow> nat \<Rightarrow> cell" where
  "json_cell r j = (case nth_opt r j of Some (Some v) \<Rightarrow> v | _ \<Rightarrow> Text [])"

definition json_row :: "nat \<Rightarrow> cell option list \<Rightarrow> row" where
  "json_row w r = map (json_cell r) [0..<w]"

definition sheet_to_json :: "WorkSheet \<Rightarrow> aoa" where
  "sheet_to_json ws = map (json_row (sheet_width ws)) (filter hasStoredCell (ref_cells ws))"

text \<open>
  The library's \<^verbatim>\<open>aoa_to_sheet\<close>: the range starts at the cell A1 and every element
  of the arrays, a string or a number, is stored.
\<close>

definition aoa_to_sheet :: "aoa \<Rightarrow> WorkSheet" where
  "aoa_to_sheet a = \<lparr>ref_row = 0, ref_col = 0, ref_cells = map (map Some) a\<rparr>"

definition getAoa :: "WorkBook \<Rightarrow> string \<Rightarrow> aoa option" where
  "getAoa wb sheetName =
     (case map_of (Sheets wb) sheetName of
        None \<Rightarrow> None
      | Some ws \<Rightarrow> Some (sheet_to_json ws))"

definition writeAoa :: "WorkBook \<Rightarrow> string \<Rightarrow> aoa \<Rightarrow> WorkBook" where
  "writeAoa wb sheetName a =
     wb\<lparr>Sheets := AList.update sheetName (aoa_to_sheet a) (Sheets wb)\<rparr>"

text \<open>\<^verbatim>\<open>s.endsWith(suffix)\<close> up to the case of the letters.\<close>

definition ends_with_ci :: "string \<Rightarrow> string \<Rightarrow> bool" where
  "ends_with_ci s suffix =
     (length suffix \<le> length s
      \<and> toLowerCase (drop (length s - length suffix) s) = suffix)"

text \<open>\<^verbatim>\<open>originalFile.name.replace(/\.(xlsx|xls)$/i, "")\<close>.\<close>

definition baseName :: "string \<Rightarrow> string" where
  "baseName n =
     (if ends_with_ci n ''.xlsx'' then take (length n - 5) n
      else if ends_with_ci n ''.xls'' then take (length n - 4) n
      else n)"

definition outName :: "string \<Rightarrow> string option \<Rightarrow> string" where
  "outName n explicitName =
     (case explicitName of
        Some given \<Rightarrow> given
      | None \<Rightarrow> baseName n @ ''_with_estimates.xlsx'')"

definition exportUploadedExcelWithEstimates :: "Params \<Rightarrow> outcome" where
  "exportUploadedExcelWithEstimates p =
     (case originalFile p of
        None \<Rightarrow> Threw MissingFile None
      | Some f \<Rightarrow>
          if rows p = [] then Threw NoEstimatesProvided None
          else
            (let wb = workbook f in
             case selectSheetName wb of
               None \<Rightarrow> Threw NoSheetsFound (Some wb)
             | Some sheetName \<Rightarrow>
                 (case getAoa wb sheetName of
                    None \<Rightarrow> Threw SheetNotFound (Some wb)
                  | Some a \<Rightarrow>
                      if a = [] then Threw EmptySheet (Some wb)
                      else
                        (case annotate (rows p) a of
                           None \<Rightarrow> Threw MissingKeyColumn (Some wb)
                         | Some a' \<Rightarrow>
                             Downloaded (writeAoa wb sheetName a')
                               (outName (name f) (outputFileName p))))))"

section \<open>Notions used in the statements\<close>

text \<open>The cells that the loop over the departments writes for a record, in order.\<close>

definition departmentCells :: "EditableRow \<Rightarrow> Department list \<Rightarrow> cell list" where
  "departmentCells hit ds =
     concat (map (\<lambda>d. [rangeCell (map_of (ranges hit) d) key_min,
                        rangeCell (map_of (ranges hit) d) key_mostLikely,
                        rangeCell (map_of (ranges hit) d) key_max]) ds)"

definition hitCells :: "EditableRow \<Rightarrow> cell list" where
  "hitCells hit =
     departmentCells hit DEPARTMENTS
       @ [Text (confidence hit), Text (complexity hit), Text (techRemarks hit),
          Text (userRemark hit)]"

text \<open>The value of a finite feature index, the key of the sorted order.\<close>

definition finiteIndex :: "EditableRow \<Rightarrow> int" where
  "finiteIndex r = (case featureIndex r of Fin v \<Rightarrow> v | NaN \<Rightarrow> 0)"

text \<open>
  The cell stored at a row and a column of a worksheet, both counted from the first row
  and the first column of the sheet (the cell A1 is at row 0 and column 0).
\<close>

definition cellAt :: "WorkSheet \<Rightarrow> nat \<Rightarrow> nat \<Rightarrow> cell option" where
  "cellAt ws R C =
     (if R < ref_row ws \<or> C < ref_col ws then None
      else
        (case nth_opt (ref_cells ws) (R - ref_row ws) of
           None \<Rightarrow> None
         | Some r \<Rightarrow>
             (case nth_opt r (C - ref_col ws) of
                Some (Some v) \<Rightarrow> Some v
              | _ \<Rightarrow> None)))"

text \<open>
  The number of rows of the range above the sheet row \<open>R\<close> that hold a stored cell:
  the rows that the parser keeps before that row.
\<close>

definition keptRowsAbove :: "WorkSheet \<Rightarrow> nat \<Rightarrow> nat" where
  "keptRowsAbove ws R = length (filter hasStoredCell (take (R - ref_row ws) (ref_cells ws)))"

text \<open>
  What a successful export hands to the download: a worksheet of the written workbook
  (as it is stored, and as the parser reads it again) and the file name.
\<close>

definition exportedWorkSheet :: "outcome \<Rightarrow> string \<Rightarrow> WorkSheet option" where
  "exportedWorkSheet res s =
     (case res of Downloaded wb n \<Rightarrow> map_of (Sheets wb) s | Threw e w \<Rightarrow> None)"

definition exportedSheet :: "outcome \<Rightarrow> string \<Rightarrow> aoa option" where
  "exportedSheet res s = (case res of Downloaded wb n \<Rightarrow> getAoa wb s | Threw e w \<Rightarrow> None)"

definition exportedName :: "outcome \<Rightarrow> string option" where
  "exportedName res = (case res of Downloaded wb n \<Rightarrow> Some n | Threw e w \<Rightarrow> None)"

section \<open>Example inputs\<close>

text \<open>A sheet whose first two rows are blank and whose third row holds the headers.\<close>

definition blanks_then_header :: aoa where
  "blanks_then_header =
     [[Text [], Text ''  ''], [], [Text ''Feature'', Text ''Notes''], [Text ''Login'', Text ''-'']]"

text \<open>The two records of the scenario of the specification.\<close>

definition login_row :: EditableRow where
  "login_row =
     \<lparr>featureIndex = Fin 1, batch = ''B1'', featureName = ''Login'', featureDescription = [],
      confidence = ''High'', complexity = ''Simple'', techRemarks = ''OAuth'',
      userRemark = [],
      ranges = [(frontend, \<lparr>min_hours = Fin 2, mostLikely = Fin 4, max_hours = Fin 6\<rparr>)]\<rparr>"

definition logout_row :: EditableRow where
  "logout_row =
     \<lparr>featureIndex = Fin 2, batch = ''B1'', featureName = ''Logout'', featureDescription = [],
      confidence = ''Low'', complexity = ''Simple'', techRemarks = [], userRemark = ''ok'',
      ranges = [(frontend, \<lparr>min_hours = Fin 1, mostLikely = Fin 2, max_hours = Fin 3\<rparr>)]\<rparr>"

text \<open>Two records with the feature indices 0 and 1, given in the opposite order.\<close>

definition alpha_row :: EditableRow where
  "alpha_row =
     \<lparr>featureIndex = Fin 0, batch = [], featureName = ''Alpha'', featureDescription = [],
      confidence = ''High'', complexity = [], techRemarks = [], userRemark = [],
      ranges = []\<rparr>"

definition beta_row :: EditableRow where
  "beta_row =
     \<lparr>featureIndex = Fin 1, batch = [], featureName = ''Beta'', featureDescription = [],
      confidence = ''Low'', complexity = [], techRemarks = [], userRemark = [],
      ranges = []\<rparr>"

text \<open>Two records that share the feature index and, once normalised, the name.\<close>

definition search_first :: EditableRow where
  "search_first =
     \<lparr>featureIndex = Fin 7, batch = [], featureName = ''Search'', featureDescription = [],
      confidence = ''High'', complexity = [], techRemarks = [], userRemark = [],
      ranges = []\<rparr>"

definition search_second :: EditableRow where
  "search_second =
     \<lparr>featureIndex = Fin 7, batch = [], featureName = '' search '', featureDescription = [],
      confidence = ''Low'', complexity = [], techRemarks = [], userRemark = [],
      ranges = []\<rparr>"

text \<open>
  The scenario of the specification: a cover sheet, then the sheet of the features, in a
  file of the older format.
\<close>

definition scenario_sheet :: aoa where
  "scenario_sheet =
     [[Text ''Sr No'', Text ''Feature'', Text ''Notes''],
      [Num (Fin 1), Text ''Login'', Text ''-''],
      [Num (Fin 2), Text ''Logout'', Text ''-'']]"

definition scenario_workbook :: WorkBook where
  "scenario_workbook =
     \<lparr>SheetNames = [''Cover'', ''Features''],
      Sheets = [(''Cover'', aoa_to_sheet [[Text ''Estimates'']]),
                (''Features'', aoa_to_sheet scenario_sheet)]\<rparr>"

definition scenario_params :: Params where
  "scenario_params =
     \<lparr>originalFile = Some \<lparr>name = ''plan.xls'', workbook = scenario_workbook\<rparr>,
      rows = [login_row, logout_row], outputFileName = None\<rparr>"

definition scenario_output :: aoa where
  "scenario_output =
     [[Text ''Sr No'', Text ''Feature'', Text ''Notes'',
       Text ''AI Frontend Min'', Text ''AI Frontend MostLikely'', Text ''AI Frontend Max'',
       Text ''AI Backend Min'', Text ''AI Backend MostLikely'', Text ''AI Backend Max'',
       Text ''AI Mobile Min'', Text ''AI Mobile MostLikely'', Text ''AI Mobile Max'',
       Text ''AI HTML/CSS Min'', Text ''AI HTML/CSS MostLikely'', Text ''AI HTML/CSS Max'',
       Text ''AI AI/ML Min'', Text ''AI AI/ML MostLikely'', Text ''AI AI/ML Max'',
       Text ''AI Confidence'', Text ''AI Complexity'', Text ''AI Tech Remarks'',
       Text ''AI User Remark''],
      [Num (Fin 1), Text ''Login'', Text ''-'', Num (Fin 2), Num (Fin 4), Num (Fin 6),
       Text [], Text [], Text [], Text [], Text [], Text [], Text [], Text [], Text [],
       Text [], Text [], Text [], Text ''High'', Text ''Simple'', Text ''OAuth'', Text []],
      [Num (Fin 2), Text ''Logout'', Text ''-'', Num (Fin 1), Num (Fin 2), Num (Fin 3),
       Text [], Text [], Text [], Text [], Text [], Text [], Text [], Text [], Text [],
       Text [], Text [], Text [], Text ''Low'', Text ''Simple'', Text [], Text ''ok'']]"

text \<open>
  A ragged sheet: the data row has one cell more than the header row. Its range starts
  at the cell B3.
\<close>

definition ragged_sheet :: WorkSheet where
  "ragged_sheet =
     \<lparr>ref_row = 2, ref_col = 1,
      ref_cells = [[Some (Text ''Feature'')], [Some (Text ''Login''), Some (Text ''keep'')]]\<rparr>"

definition ragged_params :: Params where
  "ragged_params =
     \<lparr>originalFile = Some \<lparr>name = ''plan.xlsx'',
        workbook = \<lparr>SheetNames = [''Features''], Sheets = [(''Features'', ragged_sheet)]\<rparr>\<rparr>,
      rows = [login_row], outputFileName = None\<rparr>"

definition ragged_output :: aoa where
  "ragged_output =
     [[Text ''Feature'', Text [],
       Text ''AI Frontend Min'', Text ''AI Frontend MostLikely'', Text ''AI Frontend Max'',
       Text ''AI Backend Min'', Text ''AI Backend MostLikely'', Text ''AI Backend Max'',
       Text ''AI Mobile Min'', Text ''AI Mobile MostLikely'', Text ''AI Mobile Max'',
       Text ''AI HTML/CSS Min'', Text ''AI HTML/CSS MostLikely'', Text ''AI HTML/CSS Max'',
       Text ''AI AI/ML Min'', Text ''AI AI/ML MostLikely'', Text ''AI AI/ML Max'',
       Text ''AI Confidence'', Text ''AI Complexity'', Text ''AI Tech Remarks'',
       Text ''AI User Remark''],
      [Text ''Login'', Text ''keep'', Num (Fin 2), Num (Fin 4), Num (Fin 6),
       Text [], Text [], Text [], Text [], Text [], Text [], Text [], Text [], Text [],
       Text [], Text [], Text [], Text ''High'', Text ''Simple'', Text ''OAuth'', Text []]]"

text \<open>
  A sheet with a row without any stored cell between the header row and the data row;
  its range starts at the cell A1.
\<close>

definition gap_sheet :: WorkSheet where
  "gap_sheet =
     \<lparr>ref_row = 0, ref_col = 0,
      ref_cells = [[Some (Text ''Feature'')], [], [Some (Text ''Login'')]]\<rparr>"

definition gap_params :: Params where
  "gap_params =
     \<lparr>originalFile = Some \<lparr>name = ''plan.xlsx'',
        workbook = \<lparr>SheetNames = [''Features''], Sheets = [(''Features'', gap_sheet)]\<rparr>\<rparr>,
      rows = [login_row], outputFileName = None\<rparr>"

definition gap_output :: aoa where
  "gap_output =
     [[Text ''Feature'',
       Text ''AI Frontend Min'', Text ''AI Frontend MostLikely'', Text ''AI Frontend Max'',
       Text ''AI Backend Min'', Text ''AI Backend MostLikely'', Text ''AI Backend Max'',
       Text ''AI Mobile Min'', Text ''AI Mobile MostLikely'', Text ''AI Mobile Max'',
       Text ''AI HTML/CSS Min'', Text ''AI HTML/CSS MostLikely'', Text ''AI HTML/CSS Max'',
       Text ''AI AI/ML Min'', Text ''AI AI/ML MostLikely'', Text ''AI AI/ML Max'',
       Text ''AI Confidence'', Text ''AI Complexity'', Text ''AI Tech Remarks'',
       Text ''AI User Remark''],
      [Text ''Login'', Num (Fin 2), Num (Fin 4), Num (Fin 6),
       Text [], Text [], Text [], Text [], Text [], Text [], Text [], Text [], Text [],
       Text [], Text [], Text [], Text ''High'', Text ''Simple'', Text ''OAuth'', Text []]]"



text \<open>
  Sheets with a name column only, whose data rows match no record by name: one with the
  row right after the header, one with a blank row in between.
\<close>

definition unmatched_sheet :: aoa where
  "unmatched_sheet = [[Text ''Feature''], [Text ''Gamma'']]"

definition offset_sheet :: aoa where
  "offset_sheet = [[Text ''Feature''], [Text ''  ''], [Text ''Gamma'']]"

text \<open>Inputs on which the export throws, and one with more data rows than records.\<close>

definition single_sheet_file :: "aoa \<Rightarrow> File" where
  "single_sheet_file a =
     \<lparr>name = ''plan.xlsx'',
      workbook = \<lparr>SheetNames = [''Features''], Sheets = [(''Features'', aoa_to_sheet a)]\<rparr>\<rparr>"

definition no_file_params :: Params where
  "no_file_params = \<lparr>originalFile = None, rows = [login_row], outputFileName = None\<rparr>"

definition no_rows_params :: Params where
  "no_rows_params =
     \<lparr>originalFile = Some (single_sheet_file scenario_sheet), rows = [],
      outputFileName = None\<rparr>"

definition no_sheets_params :: Params where
  "no_sheets_params =
     \<lparr>originalFile = Some \<lparr>name = ''plan.xlsx'', workbook = \<lparr>SheetNames = [], Sheets = []\<rparr>\<rparr>,
      rows = [login_row], outputFileName = None\<rparr>"

definition empty_sheet_params :: Params where
  "empty_sheet_params =
     \<lparr>originalFile = Some (single_sheet_file []), rows = [login_row],
      outputFileName = None\<rparr>"

definition no_key_params :: Params where
  "no_key_params =
     \<lparr>originalFile = Some (single_sheet_file [[Text ''Task'', Text ''Notes''], [Text ''Login'', Text ''-'']]),
      rows = [login_row], outputFileName = None\<rparr>"

definition short_records_params :: Params where
  "short_records_params =
     \<lparr>originalFile = Some (single_sheet_file [[Text ''Feature''], [Text ''Gamma''], [Text ''Delta'']]),
      rows = [login_row], outputFileName = Some ''out.xlsx''\<rparr>"

section \<open>The header row\<close>

lemma isRowEmpty_Nil: "isRowEmpty []"
  by (simp add: isRowEmpty_def)

lemma findHeaderRowIndex_from_None:
  "findHeaderRowIndex_from i a = None \<longleftrightarrow> (\<forall>k<length a. isRowEmpty (a ! k))"
proof (induction a arbitrary: i)
  case Nil
  show ?case by simp
next
  case (Cons r rest)
  show ?case
    using Cons.IH [of "Suc i"] isRowEmpty_Nil
    by (auto simp: less_Suc_eq_0_disj)
qed

lemma findHeaderRowIndex_from_first:
  "k < length a \<Longrightarrow> \<not> isRowEmpty (a ! k) \<Longrightarrow> \<forall>j<k. isRowEmpty (a ! j)
     \<Longrightarrow> findHeaderRowIndex_from i a = Some (i + k)"
proof (induction a arbitrary: i k)
  case Nil
  then show ?case by simp
next
  case (Cons r rest)
  show ?case
  proof (cases k)
    case 0
    with Cons.prems have "\<not> isRowEmpty r" by simp
    moreover from this have "r \<noteq> []" using isRowEmpty_Nil by auto
    ultimately show ?thesis using 0 by simp
  next
    case (Suc k')
    with Cons.prems have e: "isRowEmpty r" by auto
    have "findHeaderRowIndex_from (Suc i) rest = Some (Suc i + k')"
      using Cons.prems Suc by (intro Cons.IH) auto
    with e Suc show ?thesis by simp
  qed
qed

lemma findHeaderRowIndex_from_bound:
  "findHeaderRowIndex_from i a = Some k \<Longrightarrow> i \<le> k \<and> k < i + length a"
proof (induction a arbitrary: i)
  case Nil
  then show ?case by simp
next
  case (Cons r rest)
  then show ?case by (fastforce split: if_splits)
qed

lemma findHeaderRowIndex_less: "a \<noteq> [] \<Longrightarrow> findHeaderRowIndex a < length a"
  using findHeaderRowIndex_from_bound [of 0 a]
  by (auto simp: findHeaderRowIndex_def split: option.splits)

text \<open>
  Claim C2. \<^verbatim>\<open>findHeaderRowIndex\<close> returns the index of the first row that is not
  entirely blank, and 0 when every row is blank; after two blank rows the header in
  the third row is found at index 2. A row is blank when the text of each of its cells
  is empty after collapsing white space, trimming and case folding.
\<close>

theorem findHeaderRowIndex_first_nonblank:
  "(\<forall>k. k < length a \<and> \<not> isRowEmpty (a ! k) \<and> (\<forall>j<k. isRowEmpty (a ! j))
        \<longrightarrow> findHeaderRowIndex a = k)
   \<and> ((\<forall>k<length a. isRowEmpty (a ! k)) \<longrightarrow> findHeaderRowIndex a = 0)
   \<and> (isRowEmpty r0 \<and> isRowEmpty r1 \<and> \<not> isRowEmpty hdr
        \<longrightarrow> findHeaderRowIndex (r0 # r1 # hdr # rest) = 2)
   \<and> (isRowEmpty rw \<longleftrightarrow>
        (\<forall>c\<in>set rw. toLowerCase (trim (collapse_ws (String (Some c)))) = []))"
proof (intro conjI allI impI)
  fix k
  assume "k < length a \<and> \<not> isRowEmpty (a ! k) \<and> (\<forall>j<k. isRowEmpty (a ! j))"
  then have "findHeaderRowIndex_from 0 a = Some (0 + k)"
    by (intro findHeaderRowIndex_from_first) auto
  then show "findHeaderRowIndex a = k" by (simp add: findHeaderRowIndex_def)
next
  assume "\<forall>k<length a. isRowEmpty (a ! k)"
  then have "findHeaderRowIndex_from 0 a = None"
    by (simp add: findHeaderRowIndex_from_None)
  then show "findHeaderRowIndex a = 0" by (simp add: findHeaderRowIndex_def)
next
  assume h: "isRowEmpty r0 \<and> isRowEmpty r1 \<and> \<not> isRowEmpty hdr"
  then have "hdr \<noteq> []" using isRowEmpty_Nil by auto
  with h show "findHeaderRowIndex (r0 # r1 # hdr # rest) = 2"
    by (simp add: findHeaderRowIndex_def)
next
  show "isRowEmpty rw \<longleftrightarrow>
        (\<forall>c\<in>set rw. toLowerCase (trim (collapse_ws (String (Some c)))) = [])"
    by (simp add: isRowEmpty_def norm_def list_all_iff)
qed

theorem findHeaderRowIndex_first_nonblank_witness:
  "findHeaderRowIndex blanks_then_header = 2
   \<and> findHeaderRowIndex ([Text [], Text ''  ''] # [] # [Text ''Feature''] # []) = 2
   \<and> findHeaderRowIndex [[Text [], Text ''  ''], []] = 0
   \<and> isRowEmpty [Text [], Text ''  '']"
proof -
  let ?b = "[Text [], Text ''  '']"
  have e0: "isRowEmpty ?b" by code_simp
  have e1: "isRowEmpty []" by code_simp
  have ne: "\<not> isRowEmpty [Text ''Feature'']" by code_simp
  have k1: "2 < length blanks_then_header \<and> \<not> isRowEmpty (blanks_then_header ! 2)"
    by code_simp
  have k2: "isRowEmpty (blanks_then_header ! 0) \<and> isRowEmpty (blanks_then_header ! 1)"
    by code_simp
  then have "\<forall>j<2. isRowEmpty (blanks_then_header ! j)"
    by (auto dest: less_2_cases)
  with k1 have k: "2 < length blanks_then_header \<and> \<not> isRowEmpty (blanks_then_header ! 2)
           \<and> (\<forall>j<2. isRowEmpty (blanks_then_header ! j))"
    by (intro conjI) simp_all
  have c1: "findHeaderRowIndex blanks_then_header = 2"
    using findHeaderRowIndex_first_nonblank [where a = blanks_then_header] k by blast
  have c2: "findHeaderRowIndex (?b # [] # [Text ''Feature''] # []) = 2"
    using findHeaderRowIndex_first_nonblank
            [where ?r0.0 = ?b and ?r1.0 = "[]" and hdr = "[Text ''Feature'']" and rest = "[]"]
          e0 e1 ne
    by blast
  have "\<forall>k<length [?b, []]. isRowEmpty ([?b, []] ! k)"
    using e0 e1 by (simp add: less_Suc_eq_0_disj numeral_2_eq_2)
  then have c3: "findHeaderRowIndex [?b, []] = 0"
    using findHeaderRowIndex_first_nonblank [where a = "[?b, []]"] by blast
  have "toLowerCase (trim (collapse_ws (String (Some (Text []))))) = []
        \<and> toLowerCase (trim (collapse_ws (String (Some (Text ''  ''))))) = []"
    by code_simp
  then have "\<forall>c\<in>set ?b. toLowerCase (trim (collapse_ws (String (Some c)))) = []"
    by simp
  then have c4: "isRowEmpty ?b"
    using findHeaderRowIndex_first_nonblank [where rw = ?b] by blast
  from c1 c2 c3 c4 show ?thesis by (intro conjI)
qed

section \<open>The two lookups\<close>

lemma find_append_opt:
  "find P (xs @ ys) = (case find P xs of Some x \<Rightarrow> Some x | None \<Rightarrow> find P ys)"
  by (induction xs) auto

lemma lookups_index_gen:
  "snd (foldl lookup_step (m1, m2) rs) v =
     (case find (\<lambda>r. featureIndex r = v) (rev rs) of Some r \<Rightarrow> Some r | None \<Rightarrow> m2 v)"
proof (induction rs arbitrary: m1 m2)
  case Nil
  show ?case by simp
next
  case (Cons x xs)
  have "snd (lookup_step (m1, m2) x) = m2(featureIndex x \<mapsto> x)"
    by (simp add: lookup_step_def Let_def)
  then obtain n1 where st: "lookup_step (m1, m2) x = (n1, m2(featureIndex x \<mapsto> x))"
    by (cases "lookup_step (m1, m2) x") auto
  show ?case
    by (simp add: st Cons.IH find_append_opt split: option.splits)
qed

lemma byFeatureIndex_last:
  "byFeatureIndex rs v = find (\<lambda>r. featureIndex r = v) (rev rs)"
  by (simp add: byFeatureIndex_def lookups_def lookups_index_gen split: option.splits)

lemma lookups_name_gen:
  "fst (foldl lookup_step (m1, m2) rs) k =
     (case m1 k of
        Some r \<Rightarrow> Some r
      | None \<Rightarrow> if k = [] then None else find (\<lambda>r. nameKey r = k) rs)"
proof (induction rs arbitrary: m1 m2)
  case Nil
  show ?case by (simp split: option.splits)
next
  case (Cons x xs)
  show ?case
  proof (cases "nameKey x \<noteq> [] \<and> m1 (nameKey x) = None")
    case True
    then have st: "lookup_step (m1, m2) x = (m1(nameKey x \<mapsto> x), m2(featureIndex x \<mapsto> x))"
      by (simp add: lookup_step_def Let_def)
    show ?thesis
      using True by (auto simp: st Cons.IH split: option.splits)
  next
    case False
    then have st: "lookup_step (m1, m2) x = (m1, m2(featureIndex x \<mapsto> x))"
      by (auto simp: lookup_step_def Let_def)
    show ?thesis
      using False by (auto simp: st Cons.IH split: option.splits)
  qed
qed

lemma byFeatureName_first:
  "byFeatureName rs k = (if k = [] then None else find (\<lambda>r. nameKey r = k) rs)"
  by (simp add: byFeatureName_def lookups_def lookups_name_gen)

section \<open>Rows, cells and the structure of the annotated sheet\<close>

lemma nth_opt_eq: "nth_opt xs i = (if i < length xs then Some (xs ! i) else None)"
  by (induction xs i rule: nth_opt.induct) auto

lemma assign_in_range: "i < length xs \<Longrightarrow> assign hole xs i v = xs[i := v]"
  by (simp add: assign_def)

lemma assign_middle:
  "assign hole (pre @ old # post) (length pre) v = pre @ v # post"
  by (simp add: assign_def)

lemma length_departmentCells: "length (departmentCells hit ds) = 3 * length ds"
  by (induction ds) (simp_all add: departmentCells_def)

lemma writeDepartments_closed:
  "length mid = 3 * length ds \<Longrightarrow>
     writeDepartments hit ds (pre @ mid @ post, length pre)
       = (pre @ departmentCells hit ds @ post, length pre + 3 * length ds)"
proof (induction ds arbitrary: pre mid)
  case Nil
  then show ?case by (simp add: departmentCells_def)
next
  case (Cons d ds)
  from Cons.prems obtain m0 m1 m2 mid' where
    mid: "mid = m0 # m1 # m2 # mid'" and len: "length mid' = 3 * length ds"
    by (cases mid; cases "tl mid"; cases "tl (tl mid)") auto
  let ?v0 = "rangeCell (map_of (ranges hit) d) key_min"
  let ?v1 = "rangeCell (map_of (ranges hit) d) key_mostLikely"
  let ?v2 = "rangeCell (map_of (ranges hit) d) key_max"
  have a0: "assign (Text []) (pre @ m0 # m1 # m2 # mid' @ post) (length pre) ?v0
              = pre @ ?v0 # m1 # m2 # mid' @ post"
    by (rule assign_middle)
  have a1: "assign (Text []) (pre @ ?v0 # m1 # m2 # mid' @ post) (length pre + 1) ?v1
              = pre @ ?v0 # ?v1 # m2 # mid' @ post"
    using assign_middle [of "Text []" "pre @ [?v0]" m1 "m2 # mid' @ post" ?v1] by simp
  have a2: "assign (Text []) (pre @ ?v0 # ?v1 # m2 # mid' @ post) (length pre + 2) ?v2
              = pre @ ?v0 # ?v1 # ?v2 # mid' @ post"
    using assign_middle [of "Text []" "pre @ [?v0, ?v1]" m2 "mid' @ post" ?v2] by simp
  have ih: "writeDepartments hit ds ((pre @ [?v0, ?v1, ?v2]) @ mid' @ post, length (pre @ [?v0, ?v1, ?v2]))
              = ((pre @ [?v0, ?v1, ?v2]) @ departmentCells hit ds @ post,
                 length (pre @ [?v0, ?v1, ?v2]) + 3 * length ds)"
    using len by (rule Cons.IH)
  have step: "writeDepartments hit (d # ds) (pre @ mid @ post, length pre)
      = writeDepartments hit ds ((pre @ [?v0, ?v1, ?v2]) @ mid' @ post, length (pre @ [?v0, ?v1, ?v2]))"
    unfolding mid writeDepartments.simps Let_def append_Cons a0 a1 a2
    by (simp add: numeral_3_eq_3)
  show ?case
    unfolding step ih by (simp add: departmentCells_def)
qed

lemma length_appendedHeaders: "length appendedHeaders = 19"
  by (simp add: appendedHeaders_def DEPARTMENTS_def)

lemma length_hitCells: "length (hitCells hit) = 19"
  by (simp add: hitCells_def length_departmentCells DEPARTMENTS_def)

lemma writeHit_closed:
  assumes "length mid = 19"
  shows "writeHit hit (length pre) (pre @ mid @ post) = pre @ hitCells hit @ post"
proof -
  define mid1 where "mid1 = take 15 mid"
  define mid2 where "mid2 = drop 15 mid"
  have mid: "mid = mid1 @ mid2" and l1: "length mid1 = 3 * length DEPARTMENTS"
    and l2: "length mid2 = 4"
    using assms by (simp_all add: mid1_def mid2_def DEPARTMENTS_def)
  from l2 obtain n0 n1 n2 n3 where m2: "mid2 = [n0, n1, n2, n3]"
    by (cases mid2; cases "tl mid2"; cases "tl (tl mid2)"; cases "tl (tl (tl mid2))") auto
  let ?pre = "pre @ departmentCells hit DEPARTMENTS"
  have lp: "length ?pre = length pre + 3 * length DEPARTMENTS"
    by (simp add: length_departmentCells)
  have wd: "writeDepartments hit DEPARTMENTS (pre @ mid @ post, length pre)
              = (?pre @ n0 # n1 # n2 # n3 # post, length ?pre)"
    using writeDepartments_closed [OF l1, of hit pre "mid2 @ post"]
    by (simp add: mid m2 length_departmentCells)
  let ?c0 = "Text (confidence hit)"
  let ?c1 = "Text (complexity hit)"
  let ?c2 = "Text (techRemarks hit)"
  let ?c3 = "Text (userRemark hit)"
  have b0: "assign (Text []) (?pre @ n0 # n1 # n2 # n3 # post) (length ?pre) ?c0
              = ?pre @ ?c0 # n1 # n2 # n3 # post"
    by (rule assign_middle)
  have b1: "assign (Text []) (?pre @ ?c0 # n1 # n2 # n3 # post) (length ?pre + 1) ?c1
              = ?pre @ ?c0 # ?c1 # n2 # n3 # post"
    using assign_middle [of "Text []" "?pre @ [?c0]" n1 "n2 # n3 # post" ?c1] by simp
  have b2: "assign (Text []) (?pre @ ?c0 # ?c1 # n2 # n3 # post) (length ?pre + 2) ?c2
              = ?pre @ ?c0 # ?c1 # ?c2 # n3 # post"
    using assign_middle [of "Text []" "?pre @ [?c0, ?c1]" n2 "n3 # post" ?c2] by simp
  have b3: "assign (Text []) (?pre @ ?c0 # ?c1 # ?c2 # n3 # post) (length ?pre + 3) ?c3
              = ?pre @ ?c0 # ?c1 # ?c2 # ?c3 # post"
    using assign_middle [of "Text []" "?pre @ [?c0, ?c1, ?c2]" n3 "post" ?c3]
    by (simp add: numeral_3_eq_3)
  have "writeHit hit (length pre) (pre @ mid @ post) = ?pre @ ?c0 # ?c1 # ?c2 # ?c3 # post"
    unfolding writeHit_def wd prod.case Let_def b0 b1 b2 b3 ..
  then show ?thesis by (simp add: hitCells_def)
qed

lemma writeHit_padded:
  assumes "length rw \<ge> b + 19"
  shows "writeHit hit b rw = take b rw @ hitCells hit @ drop (b + 19) rw"
proof -
  have "rw = take b rw @ take 19 (drop b rw) @ drop (b + 19) rw"
    by (metis append_take_drop_id drop_drop add.commute)
  moreover have "length (take b rw) = b" "length (take 19 (drop b rw)) = 19"
    using assms by simp_all
  ultimately show ?thesis
    using writeHit_closed [of "take 19 (drop b rw)" hit "take b rw" "drop (b + 19) rw"]
    by simp
qed


lemma length_pad: "length (pad rw n) = max (length rw) n"
  by (simp add: pad_def)

lemma nth_pad: "j < length rw \<Longrightarrow> pad rw n ! j = rw ! j"
  by (simp add: pad_def nth_append)

lemma fillRow_blank:
  "isRowEmpty rw \<Longrightarrow> fillRow rs fic fc h b r rw = rw"
  by (simp add: fillRow_def)

lemma fillRow_unmatched:
  "\<not> isRowEmpty rw \<Longrightarrow> resolveRow rs fic fc h r rw = None
     \<Longrightarrow> fillRow rs fic fc h b r rw = pad rw (b + 19)"
  by (simp add: fillRow_def length_appendedHeaders)

lemma fillRow_matched:
  assumes "\<not> isRowEmpty rw" "resolveRow rs fic fc h r rw = Some hit"
  shows "fillRow rs fic fc h b r rw
           = take b (pad rw (b + 19)) @ hitCells hit @ drop (b + 19) (pad rw (b + 19))"
proof -
  have "b + 19 \<le> length (pad rw (b + 19))" by (simp add: length_pad)
  then show ?thesis
    using assms by (simp add: fillRow_def length_appendedHeaders writeHit_padded)
qed

lemma fillRow_keeps:
  assumes "j < length rw"
    and "j < b \<or> b + 19 \<le> j \<or> isRowEmpty rw \<or> resolveRow rs fic fc h r rw = None"
  shows "j < length (fillRow rs fic fc h b r rw) \<and> fillRow rs fic fc h b r rw ! j = rw ! j"
proof (cases "isRowEmpty rw")
  case True
  with assms(1) show ?thesis by (simp add: fillRow_blank)
next
  case False
  show ?thesis
  proof (cases "resolveRow rs fic fc h r rw")
    case None
    with False assms(1) show ?thesis
      by (simp add: fillRow_unmatched length_pad nth_pad)
  next
    case (Some hit)
    let ?P = "pad rw (b + 19)"
    have lp: "b + 19 \<le> length ?P" and jl: "j < length ?P"
      using assms(1) by (simp_all add: length_pad)
    have eq: "fillRow rs fic fc h b r rw = take b ?P @ hitCells hit @ drop (b + 19) ?P"
      using False Some by (rule fillRow_matched)
    from assms(2) False Some have "j < b \<or> b + 19 \<le> j" by simp
    then show ?thesis
    proof
      assume "j < b"
      with lp jl assms(1) show ?thesis
        by (simp add: eq nth_append nth_pad length_hitCells)
    next
      assume bj: "b + 19 \<le> j"
      have "(take b ?P @ hitCells hit @ drop (b + 19) ?P) ! j
              = (hitCells hit @ drop (b + 19) ?P) ! (j - b)"
        using bj lp by (simp add: nth_append)
      also have "\<dots> = drop (b + 19) ?P ! (j - b - 19)"
      proof -
        have "\<not> j - b < 19" using bj by arith
        then show ?thesis by (simp add: nth_append length_hitCells)
      qed
      also have "\<dots> = ?P ! j"
        using bj jl by simp
      finally have "fillRow rs fic fc h b r rw ! j = rw ! j"
        using assms(1) by (simp add: eq nth_pad)
      moreover have "j < length (fillRow rs fic fc h b r rw)"
        using lp jl by (simp add: eq length_hitCells)
      ultimately show ?thesis by simp
    qed
  qed
qed

lemma fillRow_hit_cells:
  assumes "\<not> isRowEmpty rw" "resolveRow rs fic fc h r rw = Some hit"
  shows "take 19 (drop b (fillRow rs fic fc h b r rw)) = hitCells hit"
proof -
  have "b + 19 \<le> length (pad rw (b + 19))" by (simp add: length_pad)
  then show ?thesis
    by (simp add: fillRow_matched [OF assms] length_hitCells)
qed

lemma length_fillRows: "length (fillRows rs fic fc h b r xs) = length xs"
  by (induction xs arbitrary: r) simp_all

lemma nth_fillRows:
  "i < length xs \<Longrightarrow> fillRows rs fic fc h b r xs ! i = fillRow rs fic fc h b (r + i) (xs ! i)"
proof (induction xs arbitrary: r i)
  case Nil
  then show ?case by simp
next
  case (Cons x xs)
  then show ?case by (cases i) simp_all
qed

lemma annotate_Some:
  assumes "annotate rs a = Some a'" and "a \<noteq> []"
  shows "length a' = length a"
    and "pickColumnIndex (a ! findHeaderRowIndex a) featureCandidates \<noteq> None
         \<or> pickColumnIndex (a ! findHeaderRowIndex a) featureIndexCandidates \<noteq> None"
    and "i < findHeaderRowIndex a \<Longrightarrow> a' ! i = a ! i"
    and "a' ! findHeaderRowIndex a = a ! findHeaderRowIndex a @ map Text appendedHeaders"
    and "findHeaderRowIndex a < r \<Longrightarrow> r < length a \<Longrightarrow>
         a' ! r = fillRow rs (pickColumnIndex (a ! findHeaderRowIndex a) featureIndexCandidates)
                    (pickColumnIndex (a ! findHeaderRowIndex a) featureCandidates)
                    (findHeaderRowIndex a) (length (a ! findHeaderRowIndex a)) r (a ! r)"
proof -
  let ?h = "findHeaderRowIndex a"
  let ?hdr = "a ! ?h"
  let ?fic = "pickColumnIndex ?hdr featureIndexCandidates"
  let ?fc = "pickColumnIndex ?hdr featureCandidates"
  let ?a1 = "a[?h := ?hdr @ map Text appendedHeaders]"
  have hl: "?h < length a" using assms(2) by (rule findHeaderRowIndex_less)
  then have hdr: "nth_opt a ?h = Some ?hdr" by (simp add: nth_opt_eq)
  have keys: "\<not> (?fc = None \<and> ?fic = None)"
    using assms(1) by (simp add: annotate_def Let_def hdr split: if_splits)
  show "?fc \<noteq> None \<or> ?fic \<noteq> None" using keys by simp
  have a': "a' = take (Suc ?h) ?a1 @ fillRows rs ?fic ?fc ?h (length ?hdr) (Suc ?h) (drop (Suc ?h) ?a1)"
    using assms(1) keys hl
    by (simp add: annotate_def Let_def hdr assign_in_range split: if_splits)
  show "length a' = length a"
    using hl by (simp add: a' length_fillRows)
  show "a' ! ?h = ?hdr @ map Text appendedHeaders"
    using hl by (simp add: a' nth_append)
  show "a' ! i = a ! i" if "i < ?h"
    using that hl by (simp add: a' nth_append)
  show "a' ! r = fillRow rs ?fic ?fc ?h (length ?hdr) r (a ! r)" if "?h < r" "r < length a"
  proof -
    have "a' ! r = fillRows rs ?fic ?fc ?h (length ?hdr) (Suc ?h) (drop (Suc ?h) ?a1) ! (r - Suc ?h)"
      using that hl by (simp add: a' nth_append min_def)
    also have "\<dots> = fillRow rs ?fic ?fc ?h (length ?hdr) (Suc ?h + (r - Suc ?h)) (drop (Suc ?h) ?a1 ! (r - Suc ?h))"
      using that by (intro nth_fillRows) simp
    also have "drop (Suc ?h) ?a1 ! (r - Suc ?h) = a ! r"
      using that by simp
    also have "Suc ?h + (r - Suc ?h) = r" using that by simp
    finally show ?thesis .
  qed
qed

lemma export_Downloaded:
  assumes "exportUploadedExcelWithEstimates p = Downloaded wb' n"
  obtains f s a a' where "originalFile p = Some f" "rows p \<noteq> []"
    "selectSheetName (workbook f) = Some s" "getAoa (workbook f) s = Some a" "a \<noteq> []"
    "annotate (rows p) a = Some a'" "wb' = writeAoa (workbook f) s a'"
    "n = outName (name f) (outputFileName p)"
  using assms
  by (auto simp: exportUploadedExcelWithEstimates_def Let_def
      split: option.splits if_splits)

section \<open>Reading and writing a worksheet\<close>

lemma length_json_row: "length (json_row w r) = w"
  by (simp add: json_row_def)

lemma length_le_foldr_max:
  "r \<in> set rs \<Longrightarrow> length r \<le> foldr (\<lambda>r w. max (length r) w) rs 0"
  by (induction rs) auto

lemma foldr_max_le:
  "\<forall>r\<in>set rs. length r \<le> W \<Longrightarrow> foldr (\<lambda>r w. max (length r) w) rs 0 \<le> W"
  by (induction rs) auto

lemma length_le_sheet_width: "r \<in> set (ref_cells ws) \<Longrightarrow> length r \<le> sheet_width ws"
  by (simp add: sheet_width_def length_le_foldr_max)

lemma sheet_width_eq:
  assumes "\<forall>r\<in>set (ref_cells ws). length r \<le> W" and "r \<in> set (ref_cells ws)"
    and "length r = W"
  shows "sheet_width ws = W"
proof -
  have "sheet_width ws \<le> W" using assms(1) by (simp add: sheet_width_def foldr_max_le)
  moreover have "W \<le> sheet_width ws" using length_le_sheet_width [OF assms(2)] assms(3) by simp
  ultimately show ?thesis by simp
qed

lemma hasStoredCell_nonempty: "hasStoredCell r \<Longrightarrow> r \<noteq> []"
  by (auto simp: hasStoredCell_def)

lemma hasStoredCell_nth: "j < length r \<Longrightarrow> r ! j = Some v \<Longrightarrow> hasStoredCell r"
  unfolding hasStoredCell_def list_ex_iff by (metis nth_mem option.distinct(1))

lemma hasStoredCell_map_Some: "hasStoredCell (map Some r) \<longleftrightarrow> r \<noteq> []"
  by (cases r) (simp_all add: hasStoredCell_def)

text \<open>Every row that the parser delivers has the width of the sheet, which is not 0.\<close>

lemma sheet_to_json_row:
  assumes "r \<in> set (sheet_to_json ws)"
  shows "length r = sheet_width ws \<and> 0 < sheet_width ws"
proof -
  from assms obtain r0 where r0: "r0 \<in> set (ref_cells ws)" "hasStoredCell r0"
    and r: "r = json_row (sheet_width ws) r0"
    by (auto simp: sheet_to_json_def)
  from r0 have "0 < length r0" using hasStoredCell_nonempty by auto
  with length_le_sheet_width [OF r0(1)] have "0 < sheet_width ws" by linarith
  with r show ?thesis by (simp add: length_json_row)
qed

lemma getAoa_rows:
  assumes "getAoa wb s = Some a" and "r \<in> set a"
  shows "length r = length (hd a) \<and> 0 < length r"
proof -
  from assms(1) obtain ws where a: "a = sheet_to_json ws"
    by (auto simp: getAoa_def split: option.splits)
  from assms(2) have "a \<noteq> []" by auto
  then have "hd a \<in> set a" by simp
  with a sheet_to_json_row [of r ws] sheet_to_json_row [of "hd a" ws] assms(2)
  show ?thesis by simp
qed

lemma getAoa_nth_length:
  assumes "getAoa wb s = Some a" and "i < length a" and "k < length a"
  shows "length (a ! i) = length (a ! k)" and "0 < length (a ! i)"
proof -
  have i: "length (a ! i) = length (hd a) \<and> 0 < length (a ! i)"
    using assms(2) by (intro getAoa_rows [OF assms(1)]) simp
  have k: "length (a ! k) = length (hd a) \<and> 0 < length (a ! k)"
    using assms(3) by (intro getAoa_rows [OF assms(1)]) simp
  show "length (a ! i) = length (a ! k)"
    by (simp only: i [THEN conjunct1] k [THEN conjunct1])
  show "0 < length (a ! i)" by (rule i [THEN conjunct2])
qed

text \<open>The row of the parsed array that a row of the range with a stored cell becomes.\<close>

lemma filter_nth_kept:
  assumes "i < length xs" and "P (xs ! i)"
  shows "length (filter P (take i xs)) < length (filter P xs)"
    and "filter P xs ! length (filter P (take i xs)) = xs ! i"
proof -
  have xs: "xs = take i xs @ xs ! i # drop (Suc i) xs"
    using assms(1) by (simp add: id_take_nth_drop)
  have f: "filter P xs = filter P (take i xs) @ xs ! i # filter P (drop (Suc i) xs)"
    using assms(2) by (subst xs) simp
  show "length (filter P (take i xs)) < length (filter P xs)"
    by (subst f) simp
  show "filter P xs ! length (filter P (take i xs)) = xs ! i"
    by (subst f) simp
qed

lemma json_row_nth:
  "j < length r \<Longrightarrow> length r \<le> w \<Longrightarrow> r ! j = Some v \<Longrightarrow> json_row w r ! j = v"
  by (simp add: json_row_def json_cell_def nth_opt_eq)

lemma sheet_to_json_cell:
  assumes "i < length (ref_cells ws)" and "j < length (ref_cells ws ! i)"
    and "ref_cells ws ! i ! j = Some v"
  shows "length (filter hasStoredCell (take i (ref_cells ws))) < length (sheet_to_json ws)"
    and "j < length (sheet_to_json ws ! length (filter hasStoredCell (take i (ref_cells ws))))"
    and "sheet_to_json ws ! length (filter hasStoredCell (take i (ref_cells ws))) ! j = v"
proof -
  let ?rows = "ref_cells ws"
  let ?k = "length (filter hasStoredCell (take i ?rows))"
  have st: "hasStoredCell (?rows ! i)" using assms(2,3) by (rule hasStoredCell_nth)
  have k: "?k < length (filter hasStoredCell ?rows)"
    and nth: "filter hasStoredCell ?rows ! ?k = ?rows ! i"
    using filter_nth_kept [OF assms(1), of hasStoredCell] st by simp_all
  have w: "length (?rows ! i) \<le> sheet_width ws"
    using assms(1) by (intro length_le_sheet_width) simp
  show "?k < length (sheet_to_json ws)" using k by (simp add: sheet_to_json_def)
  have row: "sheet_to_json ws ! ?k = json_row (sheet_width ws) (?rows ! i)"
    using k nth by (simp add: sheet_to_json_def)
  show "j < length (sheet_to_json ws ! ?k)"
    using assms(2) w by (simp add: row length_json_row)
  show "sheet_to_json ws ! ?k ! j = v"
    using assms(2,3) w by (simp add: row json_row_nth)
qed

text \<open>Reading again what was written: every row is filled up to the greatest length.\<close>

lemma json_row_map_Some:
  "length r \<le> w \<Longrightarrow> json_row w (map Some r) = pad r w"
  by (rule nth_equalityI)
     (auto simp: json_row_def json_cell_def nth_opt_eq pad_def nth_append)

lemma sheet_to_json_aoa_to_sheet:
  assumes "\<forall>r\<in>set x. r \<noteq> []"
  shows "sheet_to_json (aoa_to_sheet x) = map (\<lambda>r. pad r (sheet_width (aoa_to_sheet x))) x"
proof -
  have keep: "filter hasStoredCell (map (map Some) x) = map (map Some) x"
    using assms by (auto simp: filter_id_conv hasStoredCell_map_Some)
  have "map (json_row (sheet_width (aoa_to_sheet x))) (map (map Some) x)
          = map (\<lambda>r. pad r (sheet_width (aoa_to_sheet x))) x"
  proof (simp, intro ballI)
    fix r assume "r \<in> set x"
    then have "map Some r \<in> set (ref_cells (aoa_to_sheet x))"
      by (simp add: aoa_to_sheet_def)
    from length_le_sheet_width [OF this]
    show "json_row (sheet_width (aoa_to_sheet x)) (map Some r)
            = pad r (sheet_width (aoa_to_sheet x))"
      by (intro json_row_map_Some) simp
  qed
  then show ?thesis by (simp add: sheet_to_json_def aoa_to_sheet_def keep)
qed

lemma sheet_width_aoa_to_sheet:
  assumes "\<forall>r\<in>set x. length r \<le> W" and "r \<in> set x" and "length r = W"
  shows "sheet_width (aoa_to_sheet x) = W"
proof (rule sheet_width_eq)
  show "\<forall>r\<in>set (ref_cells (aoa_to_sheet x)). length r \<le> W"
    using assms(1) by (auto simp: aoa_to_sheet_def)
  show "map Some r \<in> set (ref_cells (aoa_to_sheet x))"
    using assms(2) by (simp add: aoa_to_sheet_def)
  show "length (map Some r) = W" using assms(3) by simp
qed

lemma map_of_writeAoa:
  "map_of (Sheets (writeAoa wb s a)) t
     = (if t = s then Some (aoa_to_sheet a) else map_of (Sheets wb) t)"
  by (simp add: writeAoa_def update_conv')

lemma getAoa_writeAoa:
  "getAoa (writeAoa wb s a) t
     = (if t = s then Some (sheet_to_json (aoa_to_sheet a)) else getAoa wb t)"
  by (simp add: getAoa_def map_of_writeAoa)

text \<open>The lengths of the rows of the annotated array of a sheet that was read.\<close>

lemma length_fillRow:
  assumes "length rw = b"
  shows "length (fillRow rs fic fc h b r rw) = (if isRowEmpty rw then b else b + 19)"
proof (cases "isRowEmpty rw")
  case True
  then show ?thesis using assms by (simp add: fillRow_blank)
next
  case False
  show ?thesis
  proof (cases "resolveRow rs fic fc h r rw")
    case None
    with False assms show ?thesis by (simp add: fillRow_unmatched length_pad)
  next
    case (Some hit)
    with False assms show ?thesis
      by (simp add: fillRow_matched length_pad length_hitCells)
  qed
qed

lemma annotate_row_lengths:
  assumes "annotate rs a = Some x" and "a \<noteq> []"
    and "\<forall>r\<in>set a. length r = w"
  shows "length (x ! findHeaderRowIndex a) = w + 19"
    and "i < length a \<Longrightarrow> length (x ! i) = w \<or> length (x ! i) = w + 19"
    and "findHeaderRowIndex a < i \<Longrightarrow> i < length a \<Longrightarrow> \<not> isRowEmpty (a ! i)
         \<Longrightarrow> length (x ! i) = w + 19"
proof -
  let ?h = "findHeaderRowIndex a"
  have hl: "?h < length a" using assms(2) by (rule findHeaderRowIndex_less)
  have len: "length (a ! k) = w" if "k < length a" for k
    using assms(3) that by simp
  show h: "length (x ! ?h) = w + 19"
    using annotate_Some(4) [OF assms(1,2)] len [OF hl] by (simp add: length_appendedHeaders)
  have row: "length (x ! i) = (if isRowEmpty (a ! i) then w else w + 19)"
    if "?h < i" "i < length a" for i
    using annotate_Some(5) [OF assms(1,2) that] len [OF hl] len [OF that(2)]
    by (simp add: length_fillRow)
  show "length (x ! i) = w \<or> length (x ! i) = w + 19" if "i < length a"
  proof -
    consider "i < ?h" | "i = ?h" | "?h < i" by linarith
    then show ?thesis
    proof cases
      case 1
      then show ?thesis using annotate_Some(3) [OF assms(1,2), of i] len [OF that] by simp
    next
      case 2
      then show ?thesis using h by simp
    next
      case 3
      then show ?thesis using row [OF 3 that] by simp
    qed
  qed
  show "length (x ! i) = w + 19" if "?h < i" "i < length a" "\<not> isRowEmpty (a ! i)"
    using row [OF that(1,2)] that(3) by simp
qed

text \<open>
  The written sheet, read again, is the annotated array with its blank rows filled up
  to the new width.
\<close>

lemma getAoa_rect:
  assumes "getAoa wb s = Some a" and "a \<noteq> []"
  shows "\<forall>r\<in>set a. length r = length (a ! findHeaderRowIndex a)"
    and "0 < length (a ! findHeaderRowIndex a)"
proof -
  have hl: "findHeaderRowIndex a < length a" using assms(2) by (rule findHeaderRowIndex_less)
  show "\<forall>r\<in>set a. length r = length (a ! findHeaderRowIndex a)"
  proof
    fix r assume "r \<in> set a"
    then obtain k where "k < length a" "r = a ! k" by (auto simp: in_set_conv_nth)
    then show "length r = length (a ! findHeaderRowIndex a)"
      using getAoa_nth_length(1) [OF assms(1) _ hl] by simp
  qed
  show "0 < length (a ! findHeaderRowIndex a)"
    using getAoa_nth_length(2) [OF assms(1) hl hl] .
qed

lemma pad_same: "length r = n \<Longrightarrow> pad r n = r"
  by (simp add: pad_def)

lemma getAoa_annotated:
  assumes "getAoa wb s = Some a" and "a \<noteq> []" and "annotate rs a = Some x"
  shows "getAoa (writeAoa wb s x) s
           = Some (map (\<lambda>r. pad r (length (a ! findHeaderRowIndex a) + 19)) x)"
proof -
  let ?h = "findHeaderRowIndex a"
  let ?w = "length (a ! ?h)"
  have hl: "?h < length a" using assms(2) by (rule findHeaderRowIndex_less)
  note rect = getAoa_rect(1) [OF assms(1,2)]
  note pos = getAoa_rect(2) [OF assms(1,2)]
  have lx: "length x = length a" using assms(3,2) by (rule annotate_Some(1))
  have rows: "length r = ?w \<or> length r = ?w + 19" if "r \<in> set x" for r
  proof -
    from that obtain k where "k < length x" "r = x ! k" by (auto simp: in_set_conv_nth)
    then show ?thesis using annotate_row_lengths(2) [OF assms(3,2) rect, of k] lx by simp
  qed
  have ne: "\<forall>r\<in>set x. r \<noteq> []" using rows pos by fastforce
  have hx: "x ! ?h \<in> set x" using hl lx by simp
  have "sheet_width (aoa_to_sheet x) = ?w + 19"
  proof (rule sheet_width_aoa_to_sheet)
    show "\<forall>r\<in>set x. length r \<le> ?w + 19" using rows by fastforce
    show "x ! ?h \<in> set x" by (rule hx)
    show "length (x ! ?h) = ?w + 19" using assms(3,2) rect by (rule annotate_row_lengths(1))
  qed
  then show ?thesis
    by (simp add: getAoa_writeAoa sheet_to_json_aoa_to_sheet [OF ne])
qed


section \<open>The resolver\<close>

lemma SortCompare_finite:
  "featureIndex x \<noteq> NaN \<Longrightarrow> featureIndex y \<noteq> NaN
     \<Longrightarrow> SortCompare x y \<le> 0 \<longleftrightarrow> finiteIndex x \<le> finiteIndex y"
  by (cases "featureIndex x"; cases "featureIndex y")
     (simp_all add: SortCompare_def comparefn_def finiteIndex_def)

lemma sort_insert_insort_key:
  "featureIndex x \<noteq> NaN \<Longrightarrow> \<forall>y\<in>set ys. featureIndex y \<noteq> NaN
     \<Longrightarrow> sort_insert x ys = insort_key finiteIndex x ys"
  by (induction ys) (simp_all add: SortCompare_finite)

lemma sortByFeatureIndex_sort_key:
  "\<forall>x\<in>set rs. featureIndex x \<noteq> NaN \<Longrightarrow> sortByFeatureIndex rs = sort_key finiteIndex rs"
proof (induction rs)
  case Nil
  show ?case by (simp add: sortByFeatureIndex_def)
next
  case (Cons x xs)
  then have ih: "foldr sort_insert xs [] = sort_key finiteIndex xs"
    by (simp add: sortByFeatureIndex_def)
  have "\<forall>y\<in>set (sort_key finiteIndex xs). featureIndex y \<noteq> NaN"
    using Cons.prems by simp
  then show ?case
    using Cons.prems by (simp add: sortByFeatureIndex_def ih sort_insert_insort_key)
qed

lemma find_first:
  "\<forall>y\<in>set pre. \<not> P y \<Longrightarrow> P x \<Longrightarrow> find P (pre @ x # post) = Some x"
  by (induction pre) auto

lemma find_last:
  "\<forall>y\<in>set post. \<not> P y \<Longrightarrow> P x \<Longrightarrow> find P (rev (pre @ x # post)) = Some x"
  using find_first [of "rev post" P x "rev pre"] by simp

lemma find_Some_exists: "x \<in> set xs \<Longrightarrow> P x \<Longrightarrow> \<exists>y. find P xs = Some y \<and> P y \<and> y \<in> set xs"
  by (induction xs) auto

lemma nameMatch_eq:
  "nameMatch rs (Some c) rw =
     (if norm (nth_opt rw c) = [] then None
      else find (\<lambda>r. nameKey r = norm (nth_opt rw c)) rs)"
  by (simp add: nameMatch_def byFeatureName_first)

lemma indexMatch_eq:
  "indexMatch rs (Some c) rw =
     (case Number (nth_opt rw c) of
        Fin i \<Rightarrow> find (\<lambda>r. featureIndex r = Fin i) (rev rs)
      | NaN \<Rightarrow> None)"
  by (simp add: indexMatch_def byFeatureIndex_last split: number.splits)

text \<open>
  Claim C9. The two keys resolve duplicates differently. Among several records with the
  same normalised name, a name match gives the first of the list; among several records
  with the same feature index, an index match gives the last of the list, since every
  record overwrites the entry of its index.
\<close>

theorem duplicate_keys_first_name_last_index:
  "(rs = pre @ x # post \<and> nameKey x = norm (nth_opt rw c) \<and> nameKey x \<noteq> []
      \<and> (\<forall>y\<in>set pre. nameKey y \<noteq> nameKey x)
      \<longrightarrow> byFeatureName rs (nameKey x) = Some x \<and> nameMatch rs (Some c) rw = Some x)
   \<and> (rs = pre @ x # post \<and> Number (nth_opt rw c) = Fin i \<and> featureIndex x = Fin i
      \<and> (\<forall>y\<in>set post. featureIndex y \<noteq> Fin i)
      \<longrightarrow> byFeatureIndex rs (Fin i) = Some x \<and> indexMatch rs (Some c) rw = Some x)"
proof (intro conjI impI)
  assume a: "rs = pre @ x # post \<and> nameKey x = norm (nth_opt rw c) \<and> nameKey x \<noteq> []
      \<and> (\<forall>y\<in>set pre. nameKey y \<noteq> nameKey x)"
  then have "find (\<lambda>r. nameKey r = nameKey x) (pre @ x # post) = Some x"
    by (intro find_first) auto
  with a have f: "find (\<lambda>r. nameKey r = nameKey x) rs = Some x"
    by simp
  from a have ne: "nameKey x \<noteq> []" by blast
  show "byFeatureName rs (nameKey x) = Some x"
    unfolding byFeatureName_first using ne f by simp
  from a have k: "norm (nth_opt rw c) = nameKey x" by auto
  show "nameMatch rs (Some c) rw = Some x"
    unfolding nameMatch_eq k using ne f by simp
next
  assume a: "rs = pre @ x # post \<and> Number (nth_opt rw c) = Fin i \<and> featureIndex x = Fin i
      \<and> (\<forall>y\<in>set post. featureIndex y \<noteq> Fin i)"
  then have "find (\<lambda>r. featureIndex r = Fin i) (rev (pre @ x # post)) = Some x"
    by (intro find_last) auto
  with a have f: "find (\<lambda>r. featureIndex r = Fin i) (rev rs) = Some x"
    by simp
  then show "byFeatureIndex rs (Fin i) = Some x"
    by (simp add: byFeatureIndex_last)
  from a f show "indexMatch rs (Some c) rw = Some x"
    by (simp add: indexMatch_eq)
qed

theorem duplicate_keys_first_name_last_index_witness:
  "nameMatch [search_first, search_second] (Some 1) [Num (Fin 7), Text ''SEARCH''] = Some search_first
   \<and> indexMatch [search_first, search_second] (Some 0) [Num (Fin 7), Text ''SEARCH''] = Some search_second
   \<and> search_first \<noteq> search_second"
proof -
  let ?rw = "[Num (Fin 7), Text ''SEARCH'']"
  have k: "nameKey search_first = norm (nth_opt ?rw 1)" "nameKey search_first \<noteq> []"
    by code_simp+
  have i: "Number (nth_opt ?rw 0) = Fin 7" "featureIndex search_second = Fin 7"
    by code_simp+
  have ne: "search_first \<noteq> search_second" by code_simp
  have "nameMatch [search_first, search_second] (Some 1) ?rw = Some search_first"
    using duplicate_keys_first_name_last_index [of "[search_first, search_second]" "[]" search_first "[search_second]" ?rw 1] k
    by simp
  moreover have "indexMatch [search_first, search_second] (Some 0) ?rw = Some search_second"
    using duplicate_keys_first_name_last_index [of "[search_first, search_second]" "[search_first]" search_second "[]" ?rw 0 7] i
    by simp
  ultimately show ?thesis using ne by simp
qed

text \<open>
  Claim C4. The keys are tried in the order index, name, position, and the first that
  finds a record decides. When the feature index column exists and the index cell of
  the row reads as a number that is the feature index of some record, the resolver
  selects a record with that index (the only one, when no other record shares it),
  whatever the name cell of the row matches.
\<close>

theorem index_match_outranks_name_match:
  "(Number (nth_opt rw c) = Fin v \<and> a \<in> set rs \<and> featureIndex a = Fin v
      \<longrightarrow> (\<exists>hit. resolveRow rs (Some c) featureCol h r rw = Some hit
             \<and> indexMatch rs (Some c) rw = Some hit
             \<and> featureIndex hit = Fin v \<and> hit \<in> set rs
             \<and> ((\<forall>y\<in>set rs. featureIndex y = Fin v \<longrightarrow> y = a) \<longrightarrow> hit = a)))
   \<and> (indexMatch rs fic rw = Some x \<longrightarrow> resolveRow rs fic fc h r rw = Some x)
   \<and> (indexMatch rs fic rw = None \<and> nameMatch rs fc rw = Some x
        \<longrightarrow> resolveRow rs fic fc h r rw = Some x)
   \<and> (indexMatch rs fic rw = None \<and> nameMatch rs fc rw = None
        \<longrightarrow> resolveRow rs fic fc h r rw = positionalMatch rs h r)"
proof (intro conjI impI)
  assume asm: "Number (nth_opt rw c) = Fin v \<and> a \<in> set rs \<and> featureIndex a = Fin v"
  then obtain hit where
    hit: "find (\<lambda>x. featureIndex x = Fin v) (rev rs) = Some hit"
      "featureIndex hit = Fin v" "hit \<in> set rs"
    using find_Some_exists [of a "rev rs" "\<lambda>x. featureIndex x = Fin v"] by auto
  have im: "indexMatch rs (Some c) rw = Some hit"
    using asm hit(1) by (simp add: indexMatch_eq)
  then have "resolveRow rs (Some c) featureCol h r rw = Some hit"
    by (simp add: resolveRow_def)
  with im hit show "\<exists>hit. resolveRow rs (Some c) featureCol h r rw = Some hit
             \<and> indexMatch rs (Some c) rw = Some hit
             \<and> featureIndex hit = Fin v \<and> hit \<in> set rs
             \<and> ((\<forall>y\<in>set rs. featureIndex y = Fin v \<longrightarrow> y = a) \<longrightarrow> hit = a)"
    by auto
next
  assume "indexMatch rs fic rw = Some x"
  then show "resolveRow rs fic fc h r rw = Some x" by (simp add: resolveRow_def)
next
  assume "indexMatch rs fic rw = None \<and> nameMatch rs fc rw = Some x"
  then show "resolveRow rs fic fc h r rw = Some x" by (simp add: resolveRow_def)
next
  assume "indexMatch rs fic rw = None \<and> nameMatch rs fc rw = None"
  then show "resolveRow rs fic fc h r rw = positionalMatch rs h r"
    by (simp add: resolveRow_def)
qed

theorem index_match_outranks_name_match_witness:
  "resolveRow [login_row, logout_row] (Some 0) (Some 1) 0 1 [Num (Fin 1), Text ''Logout'']
     = Some login_row
   \<and> nameMatch [login_row, logout_row] (Some 1) [Num (Fin 1), Text ''Logout''] = Some logout_row
   \<and> login_row \<noteq> logout_row
   \<and> resolveRow [login_row, logout_row] (Some 0) (Some 1) 0 1 [Text ''n/a'', Text ''Logout'']
     = Some logout_row
   \<and> positionalMatch [login_row, logout_row] 0 1 = Some login_row
   \<and> resolveRow [login_row, logout_row] (Some 0) (Some 1) 0 1 [Text ''n/a'', Text ''Other'']
     = Some login_row"
proof -
  let ?rs = "[login_row, logout_row]"
  let ?rw = "[Num (Fin 1), Text ''Logout'']"
  let ?rn = "[Text ''n/a'', Text ''Logout'']"
  let ?rp = "[Text ''n/a'', Text ''Other'']"
  have n: "Number (nth_opt ?rw 0) = Fin 1 \<and> login_row \<in> set ?rs
           \<and> featureIndex login_row = Fin 1"
    by code_simp
  have u: "\<forall>y\<in>set ?rs. featureIndex y = Fin 1 \<longrightarrow> y = login_row"
    by (simp add: logout_row_def)
  have c1: "resolveRow ?rs (Some 0) (Some 1) 0 1 ?rw = Some login_row"
    using index_match_outranks_name_match
            [where rw = ?rw and c = 0 and v = 1 and a = login_row and rs = ?rs
               and featureCol = "Some 1" and h = 0 and r = 1] n u
    by auto
  have c2: "nameMatch ?rs (Some 1) ?rw = Some logout_row" by code_simp
  have c3: "login_row \<noteq> logout_row" by code_simp
  have "indexMatch ?rs (Some 0) ?rn = None \<and> nameMatch ?rs (Some 1) ?rn = Some logout_row"
    by code_simp
  then have c4: "resolveRow ?rs (Some 0) (Some 1) 0 1 ?rn = Some logout_row"
    using index_match_outranks_name_match
            [where rw = ?rn and rs = ?rs and fic = "Some 0" and fc = "Some 1"
               and x = logout_row and h = 0 and r = 1]
    by simp
  have c5: "positionalMatch ?rs 0 1 = Some login_row" by code_simp
  have "indexMatch ?rs (Some 0) ?rp = None \<and> nameMatch ?rs (Some 1) ?rp = None"
    by code_simp
  then have c6: "resolveRow ?rs (Some 0) (Some 1) 0 1 ?rp = Some login_row"
    using index_match_outranks_name_match
            [where rw = ?rp and rs = ?rs and fic = "Some 0" and fc = "Some 1"
               and h = 0 and r = 1] c5
    by simp
  from c1 c2 c3 c4 c5 c6 show ?thesis by (intro conjI)
qed

lemma trim_blank: "list_all is_space s \<Longrightarrow> trim s = []"
  by (auto simp: trim_def list_all_iff dest: set_dropWhileD)

lemma StringToNumber_blank: "list_all is_space s \<Longrightarrow> StringToNumber s = Fin 0"
  by (simp add: StringToNumber_def trim_blank)

text \<open>
  Claim C10. With a feature index column, a blank index cell (the empty string, or
  white space only) reads as the number 0: when a record with feature index 0 exists,
  the row is annotated with it, and neither the name cell nor the position of the row
  has a part in the result.
\<close>

theorem blank_index_cell_is_index_zero:
  assumes "nth_opt rw c = Some (Text s)" and "list_all is_space s"
    and "a \<in> set rs" and "featureIndex a = Fin 0"
  shows "Number (nth_opt rw c) = Fin 0
         \<and> (\<exists>hit. indexMatch rs (Some c) rw = Some hit
               \<and> resolveRow rs (Some c) featureCol h r rw = Some hit
               \<and> featureIndex hit = Fin 0 \<and> hit \<in> set rs
               \<and> find (\<lambda>x. featureIndex x = Fin 0) (rev rs) = Some hit
               \<and> (\<not> isRowEmpty rw \<longrightarrow>
                    take 19 (drop b (fillRow rs (Some c) featureCol h b r rw)) = hitCells hit))"
proof -
  have n: "Number (nth_opt rw c) = Fin 0"
    using assms(1,2) by (simp add: StringToNumber_blank)
  from assms(3,4) obtain hit where
    hit: "find (\<lambda>x. featureIndex x = Fin 0) (rev rs) = Some hit"
      "featureIndex hit = Fin 0" "hit \<in> set rs"
    using find_Some_exists [of a "rev rs" "\<lambda>x. featureIndex x = Fin 0"] by auto
  have im: "indexMatch rs (Some c) rw = Some hit"
    using n hit(1) by (simp add: indexMatch_eq)
  then have rr: "resolveRow rs (Some c) featureCol h r rw = Some hit"
    by (simp add: resolveRow_def)
  have "take 19 (drop b (fillRow rs (Some c) featureCol h b r rw)) = hitCells hit"
    if "\<not> isRowEmpty rw"
    using that rr by (rule fillRow_hit_cells)
  with n im rr hit show ?thesis by auto
qed

theorem blank_index_cell_is_index_zero_witness:
  "resolveRow [beta_row, alpha_row] (Some 0) (Some 1) 0 2 [Text [], Text ''Beta''] = Some alpha_row
   \<and> nameMatch [beta_row, alpha_row] (Some 1) [Text [], Text ''Beta''] = Some beta_row
   \<and> positionalMatch [beta_row, alpha_row] 0 2 = Some beta_row
   \<and> take 19 (drop 2 (fillRow [beta_row, alpha_row] (Some 0) (Some 1) 0 2 2 [Text [], Text ''Beta'']))
       = hitCells alpha_row"
proof -
  let ?rw = "[Text [], Text ''Beta'']"
  have c: "nth_opt ?rw 0 = Some (Text [])" by simp
  have b: "list_all is_space []" by simp
  have m: "alpha_row \<in> set [beta_row, alpha_row]" by simp
  have f: "featureIndex alpha_row = Fin 0" by code_simp
  have ne: "\<not> isRowEmpty ?rw" by code_simp
  have fd: "find (\<lambda>x. featureIndex x = Fin 0) (rev [beta_row, alpha_row]) = Some alpha_row"
    by code_simp
  have "resolveRow [beta_row, alpha_row] (Some 0) (Some 1) 0 2 ?rw = Some alpha_row
        \<and> take 19 (drop 2 (fillRow [beta_row, alpha_row] (Some 0) (Some 1) 0 2 2 ?rw)) = hitCells alpha_row"
    using blank_index_cell_is_index_zero [OF c b m f, of "Some 1" 0 2 2] ne fd by auto
  moreover have "nameMatch [beta_row, alpha_row] (Some 1) ?rw = Some beta_row" by code_simp
  moreover have "positionalMatch [beta_row, alpha_row] 0 2 = Some beta_row" by code_simp
  ultimately show ?thesis by simp
qed


section \<open>The positional fallback\<close>

text \<open>
  Claim C3, as amended. When neither the index key nor the name key resolves a record
  for a data row that is not blank, the record is the one at position
  \<open>r - (headerRowIndex + 1)\<close> of the records sorted by ascending feature index, where
  \<open>r\<close> is the index of the row in the sheet: the offset of the row from the first row
  after the header, blank rows in between counted too. No record is found when that
  position is beyond the records.
\<close>

theorem positional_fallback_by_row_offset:
  assumes "annotate rs a = Some a'" and "a \<noteq> []"
    and "h = findHeaderRowIndex a"
    and "fic = pickColumnIndex (a ! h) featureIndexCandidates"
    and "fc = pickColumnIndex (a ! h) featureCandidates"
    and "h < r" and "r < length a" and "\<not> isRowEmpty (a ! r)"
    and "indexMatch rs fic (a ! r) = None" and "nameMatch rs fc (a ! r) = None"
    and "\<forall>x\<in>set rs. featureIndex x \<noteq> NaN"
  shows "resolveRow rs fic fc h r (a ! r) = nth_opt (sort_key finiteIndex rs) (r - (h + 1))
         \<and> (case nth_opt (sort_key finiteIndex rs) (r - (h + 1)) of
               None \<Rightarrow> a' ! r = pad (a ! r) (length (a ! h) + 19)
             | Some hit \<Rightarrow> take 19 (drop (length (a ! h)) (a' ! r)) = hitCells hit)"
proof -
  have rr: "resolveRow rs fic fc h r (a ! r) = nth_opt (sort_key finiteIndex rs) (r - (h + 1))"
    using assms(9,10,11)
    by (simp add: resolveRow_def positionalMatch_def Let_def sortByFeatureIndex_sort_key)
  have row: "a' ! r = fillRow rs fic fc h (length (a ! h)) r (a ! r)"
    using annotate_Some(5) [OF assms(1,2), of r] assms(3-7) by simp
  show ?thesis
  proof (cases "nth_opt (sort_key finiteIndex rs) (r - (h + 1))")
    case None
    with rr row assms(8) show ?thesis
      by (simp add: fillRow_unmatched)
  next
    case (Some hit)
    with rr row assms(8) show ?thesis
      by (simp add: fillRow_hit_cells)
  qed
qed

theorem positional_fallback_by_row_offset_witness:
  "resolveRow [beta_row, alpha_row] None (Some 0) 0 1 (unmatched_sheet ! 1) = Some alpha_row
   \<and> featureIndex alpha_row = Fin 0"
proof -
  let ?rs = "[beta_row, alpha_row]"
  obtain a' where a': "annotate ?rs unmatched_sheet = Some a'"
    by (cases "annotate ?rs unmatched_sheet") (simp_all, code_simp)
  have ne: "unmatched_sheet \<noteq> []" by code_simp
  have h: "0 = findHeaderRowIndex unmatched_sheet" by code_simp
  have fic: "None = pickColumnIndex (unmatched_sheet ! 0) featureIndexCandidates" by code_simp
  have fc: "Some 0 = pickColumnIndex (unmatched_sheet ! 0) featureCandidates" by code_simp
  have r: "(0::nat) < 1" "1 < length unmatched_sheet" "\<not> isRowEmpty (unmatched_sheet ! 1)"
    by code_simp+
  have um: "indexMatch ?rs None (unmatched_sheet ! 1) = None"
    "nameMatch ?rs (Some 0) (unmatched_sheet ! 1) = None"
    by code_simp+
  have fin: "\<forall>x\<in>set ?rs. featureIndex x \<noteq> NaN"
    by (simp add: alpha_row_def beta_row_def)
  have s: "nth_opt (sort_key finiteIndex ?rs) (1 - (0 + 1)) = Some alpha_row" by code_simp
  have "resolveRow ?rs None (Some 0) 0 1 (unmatched_sheet ! 1) = Some alpha_row"
    using positional_fallback_by_row_offset [OF a' ne h fic fc r um fin] s by simp
  moreover have "featureIndex alpha_row = Fin 0" by code_simp
  ultimately show ?thesis by simp
qed

text \<open>
  The claim as stated fails: in \<open>offset_sheet\<close> the row at index 2 is the first data row
  that is not blank, no key matches it, and it receives the record with feature index
  1, not the one with feature index 0.
\<close>

theorem positional_fallback_counts_blank_rows:
  "findHeaderRowIndex offset_sheet = 0
   \<and> isRowEmpty (offset_sheet ! 1) \<and> \<not> isRowEmpty (offset_sheet ! 2)
   \<and> indexMatch [alpha_row, beta_row] None (offset_sheet ! 2) = None
   \<and> nameMatch [alpha_row, beta_row] (Some 0) (offset_sheet ! 2) = None
   \<and> nth_opt (sortByFeatureIndex [alpha_row, beta_row]) 0 = Some alpha_row
   \<and> resolveRow [alpha_row, beta_row] None (Some 0) 0 2 (offset_sheet ! 2) = Some beta_row
   \<and> featureIndex beta_row = Fin 1
   \<and> annotate [alpha_row, beta_row] offset_sheet
       = Some [offset_sheet ! 0 @ map Text appendedHeaders, offset_sheet ! 1,
               offset_sheet ! 2 @ hitCells beta_row]"
  by code_simp

section \<open>What the export leaves as it was\<close>

lemma annotate_keeps_cell:
  assumes "annotate rs a = Some a'" and "a \<noteq> []"
    and "i < length a" and "j < length (a ! i)"
    and "i \<le> findHeaderRowIndex a
         \<or> j < length (a ! findHeaderRowIndex a)
         \<or> length (a ! findHeaderRowIndex a) + 19 \<le> j
         \<or> isRowEmpty (a ! i)
         \<or> resolveRow rs (pickColumnIndex (a ! findHeaderRowIndex a) featureIndexCandidates)
              (pickColumnIndex (a ! findHeaderRowIndex a) featureCandidates)
              (findHeaderRowIndex a) i (a ! i) = None"
  shows "j < length (a' ! i) \<and> a' ! i ! j = a ! i ! j"
proof -
  let ?h = "findHeaderRowIndex a"
  consider "i < ?h" | "i = ?h" | "?h < i" by linarith
  then show ?thesis
  proof cases
    case 1
    then show ?thesis using annotate_Some(3) [OF assms(1,2), of i] assms(4) by simp
  next
    case 2
    then show ?thesis using annotate_Some(4) [OF assms(1,2)] assms(4) by (simp add: nth_append)
  next
    case 3
    then have row: "a' ! i = fillRow rs (pickColumnIndex (a ! ?h) featureIndexCandidates)
        (pickColumnIndex (a ! ?h) featureCandidates) ?h (length (a ! ?h)) i (a ! i)"
      using annotate_Some(5) [OF assms(1,2), of i] assms(3) by simp
    from 3 assms(5) have "j < length (a ! ?h) \<or> length (a ! ?h) + 19 \<le> j \<or> isRowEmpty (a ! i)
         \<or> resolveRow rs (pickColumnIndex (a ! ?h) featureIndexCandidates)
              (pickColumnIndex (a ! ?h) featureCandidates) ?h i (a ! i) = None"
      by auto
    with assms(4) show ?thesis
      unfolding row by (intro fillRow_keeps)
  qed
qed

lemma cellAt_Some:
  "cellAt ws R C = Some v \<longleftrightarrow>
     ref_row ws \<le> R \<and> ref_col ws \<le> C \<and> R - ref_row ws < length (ref_cells ws)
     \<and> C - ref_col ws < length (ref_cells ws ! (R - ref_row ws))
     \<and> ref_cells ws ! (R - ref_row ws) ! (C - ref_col ws) = Some v"
  by (auto simp: cellAt_def nth_opt_eq split: option.splits)

lemma cellAt_aoa_to_sheet:
  "i < length x \<Longrightarrow> j < length (x ! i) \<Longrightarrow> cellAt (aoa_to_sheet x) i j = Some (x ! i ! j)"
  by (simp add: cellAt_Some aoa_to_sheet_def)

lemma filter_take_mono:
  assumes "i < k" and "k \<le> length xs" and "P (xs ! i)"
  shows "length (filter P (take i xs)) < length (filter P (take k xs))"
proof -
  have "i < length (take k xs)" using assms(1,2) by simp
  moreover have "P (take k xs ! i)" using assms(1,3) by simp
  ultimately have "length (filter P (take i (take k xs))) < length (filter P (take k xs))"
    by (rule filter_nth_kept(1))
  then show ?thesis using assms(1) by (simp add: min_def)
qed

text \<open>
  Claim C1, as amended. On a successful export every cell stored in the selected sheet
  keeps its value, its column within the range of the sheet and its place in the order
  of the rows, in a sheet whose range starts at the cell A1: the cell is found in the
  column \<open>C - ref_col\<close> of the row that counts the rows with a stored cell above it.
  So its row moves up by the number of rows without any stored cell above it, which
  the parser leaves out, and by the rows above the range; rows with stored cells are
  neither merged nor reordered. A cell keeps its very position when the range starts at
  A1 and every row above it holds a stored cell. All this holds for every shape of the
  sheet, also when a data row has more cells than the header row: the parser fills
  every row to the width of the sheet, and the new columns start after that width.
\<close>

theorem export_keeps_cell_values_columns_and_row_order:
  assumes "exportUploadedExcelWithEstimates p = Downloaded wb' n"
    and "originalFile p = Some f" and "selectSheetName (workbook f) = Some s"
    and "map_of (Sheets (workbook f)) s = Some ws"
    and "cellAt ws R C = Some v"
  shows "(\<exists>ws'. map_of (Sheets wb') s = Some ws'
            \<and> ref_row ws' = 0 \<and> ref_col ws' = 0
            \<and> length (ref_cells ws') = length (filter hasStoredCell (ref_cells ws))
            \<and> cellAt ws' (keptRowsAbove ws R) (C - ref_col ws) = Some v)
         \<and> (\<forall>R2 C2 v2. cellAt ws R2 C2 = Some v2 \<and> R < R2
               \<longrightarrow> keptRowsAbove ws R < keptRowsAbove ws R2)
         \<and> (ref_row ws = 0 \<and> ref_col ws = 0 \<and> (\<forall>k<R. hasStoredCell (ref_cells ws ! k))
               \<longrightarrow> keptRowsAbove ws R = R \<and> C - ref_col ws = C)"
proof (intro conjI allI impI)
  let ?rows = "ref_cells ws"
  let ?i = "R - ref_row ws"
  let ?j = "C - ref_col ws"
  let ?k = "keptRowsAbove ws R"
  from assms(5) have c: "ref_row ws \<le> R" "ref_col ws \<le> C" "?i < length ?rows"
    "?j < length (?rows ! ?i)" "?rows ! ?i ! ?j = Some v"
    by (simp_all add: cellAt_Some)
  have st: "hasStoredCell (?rows ! ?i)" using c(4,5) by (rule hasStoredCell_nth)
  from assms(1) obtain f0 s0 a x where e: "originalFile p = Some f0"
    "selectSheetName (workbook f0) = Some s0" "getAoa (workbook f0) s0 = Some a" "a \<noteq> []"
    "annotate (rows p) a = Some x" "wb' = writeAoa (workbook f0) s0 x"
    by (rule export_Downloaded)
  with assms(2,3) have eq: "f0 = f" "s0 = s" by simp_all
  have a: "a = sheet_to_json ws" using e(3) eq assms(4) by (simp add: getAoa_def)
  have k: "?k < length a" "?j < length (a ! ?k)" "a ! ?k ! ?j = v"
    unfolding a keptRowsAbove_def using c(3,4,5) by (rule sheet_to_json_cell)+
  have hl: "findHeaderRowIndex a < length a" using e(4) by (rule findHeaderRowIndex_less)
  have "length (a ! ?k) = length (a ! findHeaderRowIndex a)"
    using e(3) k(1) hl by (rule getAoa_nth_length(1))
  with k(2) have "?j < length (a ! findHeaderRowIndex a)" by simp
  then have keep: "?j < length (x ! ?k) \<and> x ! ?k ! ?j = a ! ?k ! ?j"
    using annotate_keeps_cell [OF e(5,4) k(1,2)] by blast
  have lx: "length x = length a" using e(5,4) by (rule annotate_Some(1))
  have ws': "map_of (Sheets wb') s = Some (aoa_to_sheet x)"
    by (simp add: e(6) eq map_of_writeAoa)
  have "cellAt (aoa_to_sheet x) ?k ?j = Some v"
    using keep k(1,3) lx by (simp add: cellAt_aoa_to_sheet)
  moreover have "length (ref_cells (aoa_to_sheet x)) = length (filter hasStoredCell ?rows)"
    by (simp add: aoa_to_sheet_def lx a sheet_to_json_def)
  ultimately show "\<exists>ws'. map_of (Sheets wb') s = Some ws'
            \<and> ref_row ws' = 0 \<and> ref_col ws' = 0
            \<and> length (ref_cells ws') = length (filter hasStoredCell (ref_cells ws))
            \<and> cellAt ws' (keptRowsAbove ws R) (C - ref_col ws) = Some v"
    using ws' by (simp add: aoa_to_sheet_def)
  show "keptRowsAbove ws R < keptRowsAbove ws R2"
    if "cellAt ws R2 C2 = Some v2 \<and> R < R2" for R2 C2 v2
  proof -
    from that have "R2 - ref_row ws < length ?rows" "R < R2" by (simp_all add: cellAt_Some)
    then show ?thesis
      unfolding keptRowsAbove_def using c(1) st by (intro filter_take_mono) simp_all
  qed
  show "keptRowsAbove ws R = R"
    if "ref_row ws = 0 \<and> ref_col ws = 0 \<and> (\<forall>k<R. hasStoredCell (ref_cells ws ! k))"
  proof -
    from that c(3) have "\<forall>r\<in>set (take R ?rows). hasStoredCell r"
      by (auto simp: in_set_conv_nth)
    then have "filter hasStoredCell (take R ?rows) = take R ?rows"
      by (simp add: filter_id_conv)
    with that c(3) show ?thesis by (simp add: keptRowsAbove_def)
  qed
  show "C - ref_col ws = C"
    if "ref_row ws = 0 \<and> ref_col ws = 0 \<and> (\<forall>k<R. hasStoredCell (ref_cells ws ! k))"
    using that by simp
qed

theorem export_keeps_cell_values_columns_and_row_order_witness:
  "exportedWorkSheet (exportUploadedExcelWithEstimates ragged_params) ''Features''
     = Some (aoa_to_sheet ragged_output)
   \<and> cellAt ragged_sheet 3 2 = Some (Text ''keep'')
   \<and> cellAt (aoa_to_sheet ragged_output) 1 1 = Some (Text ''keep'')
   \<and> cellAt ragged_sheet 2 1 = Some (Text ''Feature'')
   \<and> cellAt (aoa_to_sheet ragged_output) 0 0 = Some (Text ''Feature'')
   \<and> cellAt (aoa_to_sheet scenario_sheet) 2 1 = Some (Text ''Logout'')
   \<and> cellAt (aoa_to_sheet scenario_output) 2 1 = Some (Text ''Logout'')"
proof -
  let ?f = "\<lparr>name = ''plan.xlsx'',
        workbook = \<lparr>SheetNames = [''Features''], Sheets = [(''Features'', ragged_sheet)]\<rparr>\<rparr>"
  let ?wb' = "writeAoa (workbook ?f) ''Features'' ragged_output"
  have ex: "exportUploadedExcelWithEstimates ragged_params
          = Downloaded ?wb' ''plan_with_estimates.xlsx''"
    by code_simp
  have f: "originalFile ragged_params = Some ?f" by code_simp
  have s: "selectSheetName (workbook ?f) = Some ''Features''" by code_simp
  have g: "map_of (Sheets (workbook ?f)) ''Features'' = Some ragged_sheet" by code_simp
  have w: "map_of (Sheets ?wb') ''Features'' = Some (aoa_to_sheet ragged_output)"
    by (simp add: map_of_writeAoa)
  have c1: "cellAt ragged_sheet 3 2 = Some (Text ''keep'')" by code_simp
  have c2: "cellAt ragged_sheet 2 1 = Some (Text ''Feature'')" by code_simp
  have k: "keptRowsAbove ragged_sheet 3 = 1" "keptRowsAbove ragged_sheet 2 = 0"
    "ref_col ragged_sheet = 1"
    by code_simp+
  note t1 = export_keeps_cell_values_columns_and_row_order [OF ex f s g c1, THEN conjunct1]
  note t2 = export_keeps_cell_values_columns_and_row_order [OF ex f s g c2, THEN conjunct1]
  from t1 have d1: "cellAt (aoa_to_sheet ragged_output) 1 1 = Some (Text ''keep'')"
    unfolding w by (simp add: k)
  from t2 have d2: "cellAt (aoa_to_sheet ragged_output) 0 0 = Some (Text ''Feature'')"
    unfolding w by (simp add: k)
  have o: "exportedWorkSheet (exportUploadedExcelWithEstimates ragged_params) ''Features''
     = Some (aoa_to_sheet ragged_output)"
    by (simp add: ex exportedWorkSheet_def map_of_writeAoa)
  let ?g = "\<lparr>name = ''plan.xls'', workbook = scenario_workbook\<rparr>"
  let ?sb' = "writeAoa scenario_workbook ''Features'' scenario_output"
  have ex2: "exportUploadedExcelWithEstimates scenario_params
          = Downloaded ?sb' ''plan_with_estimates.xlsx''"
    by code_simp
  have f2: "originalFile scenario_params = Some ?g" by code_simp
  have s2: "selectSheetName (workbook ?g) = Some ''Features''" by code_simp
  have g2: "map_of (Sheets (workbook ?g)) ''Features'' = Some (aoa_to_sheet scenario_sheet)"
    by code_simp
  have w2: "map_of (Sheets ?sb') ''Features'' = Some (aoa_to_sheet scenario_output)"
    by (simp add: map_of_writeAoa)
  have c3: "cellAt (aoa_to_sheet scenario_sheet) 2 1 = Some (Text ''Logout'')" by code_simp
  have same: "ref_row (aoa_to_sheet scenario_sheet) = 0 \<and> ref_col (aoa_to_sheet scenario_sheet) = 0
     \<and> hasStoredCell (ref_cells (aoa_to_sheet scenario_sheet) ! 0)
     \<and> hasStoredCell (ref_cells (aoa_to_sheet scenario_sheet) ! 1)"
    by code_simp
  then have all: "ref_row (aoa_to_sheet scenario_sheet) = 0 \<and> ref_col (aoa_to_sheet scenario_sheet) = 0
     \<and> (\<forall>k<2. hasStoredCell (ref_cells (aoa_to_sheet scenario_sheet) ! k))"
    by (auto dest: less_2_cases)
  note t3 = export_keeps_cell_values_columns_and_row_order [OF ex2 f2 s2 g2 c3]
  have pos: "keptRowsAbove (aoa_to_sheet scenario_sheet) 2 = 2
             \<and> 1 - ref_col (aoa_to_sheet scenario_sheet) = 1"
    using all by (rule t3 [THEN conjunct2, THEN conjunct2, rule_format])
  have rc0: "ref_col (aoa_to_sheet scenario_sheet) = 0" by (simp add: aoa_to_sheet_def)
  from t3 [THEN conjunct1]
  have d3: "cellAt (aoa_to_sheet scenario_output) 2 1 = Some (Text ''Logout'')"
    unfolding w2 by (simp add: pos [THEN conjunct1] rc0)
  from o c1 d1 c2 d2 c3 d3 show ?thesis by (intro conjI)
qed

text \<open>
  The claim as stated fails where a row of the sheet holds no stored cell: in
  \<open>gap_sheet\<close> the cell \<open>Login\<close> is in the third row, and in the written sheet it is in
  the second row, while the third row holds nothing.
\<close>

theorem cell_below_empty_row_moves_up:
  "exportedWorkSheet (exportUploadedExcelWithEstimates gap_params) ''Features''
     = Some (aoa_to_sheet gap_output)
   \<and> cellAt gap_sheet 2 0 = Some (Text ''Login'')
   \<and> cellAt (aoa_to_sheet gap_output) 2 0 = None
   \<and> cellAt (aoa_to_sheet gap_output) 1 0 = Some (Text ''Login'')"
  by code_simp


section \<open>The appended columns\<close>

lemma appendedHeaders_eq:
  "appendedHeaders =
     [''AI Frontend Min'', ''AI Frontend MostLikely'', ''AI Frontend Max'',
      ''AI Backend Min'', ''AI Backend MostLikely'', ''AI Backend Max'',
      ''AI Mobile Min'', ''AI Mobile MostLikely'', ''AI Mobile Max'',
      ''AI HTML/CSS Min'', ''AI HTML/CSS MostLikely'', ''AI HTML/CSS Max'',
      ''AI AI/ML Min'', ''AI AI/ML MostLikely'', ''AI AI/ML Max'',
      ''AI Confidence'', ''AI Complexity'', ''AI Tech Remarks'', ''AI User Remark'']"
  by (simp add: appendedHeaders_def DEPARTMENTS_def headerLabel_def)

lemma hitCells_eq:
  "hitCells hit =
     [rangeCell (map_of (ranges hit) frontend) key_min,
      rangeCell (map_of (ranges hit) frontend) key_mostLikely,
      rangeCell (map_of (ranges hit) frontend) key_max,
      rangeCell (map_of (ranges hit) backend) key_min,
      rangeCell (map_of (ranges hit) backend) key_mostLikely,
      rangeCell (map_of (ranges hit) backend) key_max,
      rangeCell (map_of (ranges hit) mobile) key_min,
      rangeCell (map_of (ranges hit) mobile) key_mostLikely,
      rangeCell (map_of (ranges hit) mobile) key_max,
      rangeCell (map_of (ranges hit) htmlCss) key_min,
      rangeCell (map_of (ranges hit) htmlCss) key_mostLikely,
      rangeCell (map_of (ranges hit) htmlCss) key_max,
      rangeCell (map_of (ranges hit) aiMl) key_min,
      rangeCell (map_of (ranges hit) aiMl) key_mostLikely,
      rangeCell (map_of (ranges hit) aiMl) key_max,
      Text (confidence hit), Text (complexity hit), Text (techRemarks hit),
      Text (userRemark hit)]"
  by (simp add: hitCells_def departmentCells_def DEPARTMENTS_def)

text \<open>
  Claim C6. In the written sheet the header row is the old header row followed by the
  19 new headers: three for each department in the order of the enumeration, then
  \<open>AI Confidence\<close>, \<open>AI Complexity\<close>, \<open>AI Tech Remarks\<close>, \<open>AI User Remark\<close>. For a
  data row with a resolved record, the 19 cells from the column after the last header
  cell hold, in the same order, the minimum, most likely and maximum hours of each
  department (the empty string for a department the record has no range for), then the
  confidence, complexity, technical remarks and user remark of the record.
\<close>

theorem appended_headers_and_values:
  assumes "exportUploadedExcelWithEstimates p = Downloaded wb' n"
    and "originalFile p = Some f" and "selectSheetName (workbook f) = Some s"
    and "getAoa (workbook f) s = Some a" and "getAoa wb' s = Some a'"
    and "h = findHeaderRowIndex a"
  shows "a' ! h = a ! h @
           [Text ''AI Frontend Min'', Text ''AI Frontend MostLikely'', Text ''AI Frontend Max'',
            Text ''AI Backend Min'', Text ''AI Backend MostLikely'', Text ''AI Backend Max'',
            Text ''AI Mobile Min'', Text ''AI Mobile MostLikely'', Text ''AI Mobile Max'',
            Text ''AI HTML/CSS Min'', Text ''AI HTML/CSS MostLikely'', Text ''AI HTML/CSS Max'',
            Text ''AI AI/ML Min'', Text ''AI AI/ML MostLikely'', Text ''AI AI/ML Max'',
            Text ''AI Confidence'', Text ''AI Complexity'', Text ''AI Tech Remarks'',
            Text ''AI User Remark'']
         \<and> (\<forall>r hit. h < r \<and> r < length a \<and> \<not> isRowEmpty (a ! r)
               \<and> resolveRow (rows p) (pickColumnIndex (a ! h) featureIndexCandidates)
                    (pickColumnIndex (a ! h) featureCandidates) h r (a ! r) = Some hit
             \<longrightarrow> take 19 (drop (length (a ! h)) (a' ! r)) =
                   [rangeCell (map_of (ranges hit) frontend) key_min,
                    rangeCell (map_of (ranges hit) frontend) key_mostLikely,
                    rangeCell (map_of (ranges hit) frontend) key_max,
                    rangeCell (map_of (ranges hit) backend) key_min,
                    rangeCell (map_of (ranges hit) backend) key_mostLikely,
                    rangeCell (map_of (ranges hit) backend) key_max,
                    rangeCell (map_of (ranges hit) mobile) key_min,
                    rangeCell (map_of (ranges hit) mobile) key_mostLikely,
                    rangeCell (map_of (ranges hit) mobile) key_max,
                    rangeCell (map_of (ranges hit) htmlCss) key_min,
                    rangeCell (map_of (ranges hit) htmlCss) key_mostLikely,
                    rangeCell (map_of (ranges hit) htmlCss) key_max,
                    rangeCell (map_of (ranges hit) aiMl) key_min,
                    rangeCell (map_of (ranges hit) aiMl) key_mostLikely,
                    rangeCell (map_of (ranges hit) aiMl) key_max,
                    Text (confidence hit), Text (complexity hit), Text (techRemarks hit),
                    Text (userRemark hit)])"
proof -
  from assms(1) obtain f0 s0 a0 a0' where e: "originalFile p = Some f0"
    "selectSheetName (workbook f0) = Some s0" "getAoa (workbook f0) s0 = Some a0" "a0 \<noteq> []"
    "annotate (rows p) a0 = Some a0'" "wb' = writeAoa (workbook f0) s0 a0'"
    by (rule export_Downloaded)
  with assms(2,3,4) have eq: "f0 = f" "s0 = s" "a0 = a" by simp_all
  let ?w = "length (a ! h)"
  have an: "annotate (rows p) a = Some a0'" and ne: "a \<noteq> []"
    using e(4,5) eq by simp_all
  note rect = getAoa_rect(1) [OF assms(4) ne]
  have hl: "h < length a" unfolding assms(6) using ne by (rule findHeaderRowIndex_less)
  have a': "a' = map (\<lambda>r. pad r (?w + 19)) a0'"
    using getAoa_annotated [OF assms(4) ne an] e(6) eq assms(5,6) by simp
  have lx: "length a0' = length a" using an ne by (rule annotate_Some(1))
  have "a' ! h = pad (a0' ! h) (?w + 19)"
    using hl lx by (simp add: a')
  also have "\<dots> = a0' ! h"
    using annotate_row_lengths(1) [OF an ne rect] assms(6) by (intro pad_same) simp
  also have "\<dots> = a ! h @ map Text appendedHeaders"
    unfolding assms(6) using an ne by (rule annotate_Some(4))
  finally have hdr: "a' ! h = a ! h @ map Text appendedHeaders" .
  have val: "take 19 (drop (length (a ! h)) (a' ! r)) = hitCells hit"
    if "h < r" "r < length a" "\<not> isRowEmpty (a ! r)"
      "resolveRow (rows p) (pickColumnIndex (a ! h) featureIndexCandidates)
         (pickColumnIndex (a ! h) featureCandidates) h r (a ! r) = Some hit" for r hit
  proof -
    have "a' ! r = pad (a0' ! r) (?w + 19)"
      using that(2) lx by (simp add: a')
    also have "\<dots> = a0' ! r"
      using annotate_row_lengths(3) [OF an ne rect, of r] that(1,2,3) assms(6)
      by (intro pad_same) simp
    also have "\<dots> = fillRow (rows p) (pickColumnIndex (a ! h) featureIndexCandidates)
        (pickColumnIndex (a ! h) featureCandidates) h (length (a ! h)) r (a ! r)"
      using annotate_Some(5) [OF an ne, of r] that(1,2) assms(6) by simp
    finally show ?thesis
      using that(3,4) by (simp add: fillRow_hit_cells)
  qed
  from hdr have "a' ! h = a ! h @
           [Text ''AI Frontend Min'', Text ''AI Frontend MostLikely'', Text ''AI Frontend Max'',
            Text ''AI Backend Min'', Text ''AI Backend MostLikely'', Text ''AI Backend Max'',
            Text ''AI Mobile Min'', Text ''AI Mobile MostLikely'', Text ''AI Mobile Max'',
            Text ''AI HTML/CSS Min'', Text ''AI HTML/CSS MostLikely'', Text ''AI HTML/CSS Max'',
            Text ''AI AI/ML Min'', Text ''AI AI/ML MostLikely'', Text ''AI AI/ML Max'',
            Text ''AI Confidence'', Text ''AI Complexity'', Text ''AI Tech Remarks'',
            Text ''AI User Remark'']"
    by (simp add: appendedHeaders_eq)
  moreover note val [unfolded hitCells_eq]
  ultimately show ?thesis by blast
qed

theorem appended_headers_and_values_witness:
  "exportedSheet (exportUploadedExcelWithEstimates scenario_params) ''Features'' = Some scenario_output
   \<and> take 19 (drop 3 (scenario_output ! 0)) = map Text appendedHeaders
   \<and> take 19 (drop 3 (scenario_output ! 1)) =
       [Num (Fin 2), Num (Fin 4), Num (Fin 6),
        Text [], Text [], Text [], Text [], Text [], Text [],
        Text [], Text [], Text [], Text [], Text [], Text [],
        Text ''High'', Text ''Simple'', Text ''OAuth'', Text []]"
proof -
  let ?f = "\<lparr>name = ''plan.xls'', workbook = scenario_workbook\<rparr>"
  let ?wb' = "writeAoa scenario_workbook ''Features'' scenario_output"
  have ex: "exportUploadedExcelWithEstimates scenario_params
          = Downloaded ?wb' ''plan_with_estimates.xlsx''"
    by code_simp
  have f: "originalFile scenario_params = Some ?f" by code_simp
  have s: "selectSheetName (workbook ?f) = Some ''Features''" by code_simp
  have g: "getAoa (workbook ?f) ''Features'' = Some scenario_sheet" by code_simp
  have g': "getAoa ?wb' ''Features'' = Some scenario_output" by code_simp
  have h: "0 = findHeaderRowIndex scenario_sheet" by code_simp
  have r: "(0::nat) < 1 \<and> 1 < length scenario_sheet \<and> \<not> isRowEmpty (scenario_sheet ! 1)
     \<and> resolveRow (rows scenario_params) (pickColumnIndex (scenario_sheet ! 0) featureIndexCandidates)
          (pickColumnIndex (scenario_sheet ! 0) featureCandidates) 0 1 (scenario_sheet ! 1)
         = Some login_row"
    by code_simp
  have l: "length (scenario_sheet ! 0) = 3" by code_simp
  have v: "[rangeCell (map_of (ranges login_row) frontend) key_min,
                    rangeCell (map_of (ranges login_row) frontend) key_mostLikely,
                    rangeCell (map_of (ranges login_row) frontend) key_max,
                    rangeCell (map_of (ranges login_row) backend) key_min,
                    rangeCell (map_of (ranges login_row) backend) key_mostLikely,
                    rangeCell (map_of (ranges login_row) backend) key_max,
                    rangeCell (map_of (ranges login_row) mobile) key_min,
                    rangeCell (map_of (ranges login_row) mobile) key_mostLikely,
                    rangeCell (map_of (ranges login_row) mobile) key_max,
                    rangeCell (map_of (ranges login_row) htmlCss) key_min,
                    rangeCell (map_of (ranges login_row) htmlCss) key_mostLikely,
                    rangeCell (map_of (ranges login_row) htmlCss) key_max,
                    rangeCell (map_of (ranges login_row) aiMl) key_min,
                    rangeCell (map_of (ranges login_row) aiMl) key_mostLikely,
                    rangeCell (map_of (ranges login_row) aiMl) key_max,
                    Text (confidence login_row), Text (complexity login_row), Text (techRemarks login_row),
                    Text (userRemark login_row)]
       = [Num (Fin 2), Num (Fin 4), Num (Fin 6),
        Text [], Text [], Text [], Text [], Text [], Text [],
        Text [], Text [], Text [], Text [], Text [], Text [],
        Text ''High'', Text ''Simple'', Text ''OAuth'', Text []]"
    by code_simp
  note t = appended_headers_and_values [OF ex f s g g' h]
  from t r have "take 19 (drop (length (scenario_sheet ! 0)) (scenario_output ! 1)) =
       [Num (Fin 2), Num (Fin 4), Num (Fin 6),
        Text [], Text [], Text [], Text [], Text [], Text [],
        Text [], Text [], Text [], Text [], Text [], Text [],
        Text ''High'', Text ''Simple'', Text ''OAuth'', Text []]"
    unfolding v [symmetric] by blast
  moreover from t have "take 19 (drop (length (scenario_sheet ! 0)) (scenario_output ! 0)) = map Text appendedHeaders"
    by (simp add: appendedHeaders_eq)
  moreover have "exportedSheet (exportUploadedExcelWithEstimates scenario_params) ''Features''
      = Some scenario_output"
    by (simp add: ex exportedSheet_def g')
  ultimately show ?thesis by (simp add: l)
qed

section \<open>Errors, the selected sheet and the file name\<close>

lemma annotate_None:
  "a \<noteq> [] \<Longrightarrow>
     annotate rs a = None \<longleftrightarrow>
       pickColumnIndex (a ! findHeaderRowIndex a) featureCandidates = None
       \<and> pickColumnIndex (a ! findHeaderRowIndex a) featureIndexCandidates = None"
  using findHeaderRowIndex_less [of a]
  by (simp add: annotate_def Let_def nth_opt_eq)

lemma selectSheetName_Nil: "SheetNames wb = [] \<Longrightarrow> selectSheetName wb = None"
  by (simp add: selectSheetName_def)

text \<open>
  Claim C5. The export throws \<open>MissingFile\<close> without a file, \<open>NoEstimatesProvided\<close>
  without records, \<open>NoSheetsFound\<close> for a workbook without sheets, \<open>EmptySheet\<close> when
  the selected sheet has no rows, and \<open>MissingKeyColumn\<close> when the header row gives
  neither key column; each check is made after the ones before it have passed. The
  workbook in memory at the throw is the one that was read, no sheet of it changed.
  Past these checks the export succeeds whatever the rows match, and a row for which
  no record is found only gets blank cells up to the new width.
\<close>

theorem export_errors:
  "(originalFile p = None \<longrightarrow> exportUploadedExcelWithEstimates p = Threw MissingFile None)
   \<and> (originalFile p = Some f \<and> rows p = []
        \<longrightarrow> exportUploadedExcelWithEstimates p = Threw NoEstimatesProvided None)
   \<and> (originalFile p = Some f \<and> rows p \<noteq> [] \<and> SheetNames (workbook f) = []
        \<longrightarrow> exportUploadedExcelWithEstimates p = Threw NoSheetsFound (Some (workbook f)))
   \<and> (originalFile p = Some f \<and> rows p \<noteq> [] \<and> selectSheetName (workbook f) = Some s
        \<and> getAoa (workbook f) s = Some []
        \<longrightarrow> exportUploadedExcelWithEstimates p = Threw EmptySheet (Some (workbook f)))
   \<and> (originalFile p = Some f \<and> rows p \<noteq> [] \<and> selectSheetName (workbook f) = Some s
        \<and> getAoa (workbook f) s = Some a \<and> a \<noteq> []
        \<and> pickColumnIndex (a ! findHeaderRowIndex a) featureCandidates = None
        \<and> pickColumnIndex (a ! findHeaderRowIndex a) featureIndexCandidates = None
        \<longrightarrow> exportUploadedExcelWithEstimates p = Threw MissingKeyColumn (Some (workbook f)))
   \<and> (originalFile p = Some f \<and> rows p \<noteq> [] \<and> selectSheetName (workbook f) = Some s
        \<and> getAoa (workbook f) s = Some a \<and> a \<noteq> []
        \<and> (pickColumnIndex (a ! findHeaderRowIndex a) featureCandidates \<noteq> None
           \<or> pickColumnIndex (a ! findHeaderRowIndex a) featureIndexCandidates \<noteq> None)
        \<longrightarrow> (\<exists>a'. annotate (rows p) a = Some a'
              \<and> exportUploadedExcelWithEstimates p
                  = Downloaded (writeAoa (workbook f) s a') (outName (name f) (outputFileName p))))
   \<and> (\<not> isRowEmpty rw \<and> resolveRow rs fic fc h r rw = None
        \<longrightarrow> fillRow rs fic fc h b r rw = rw @ replicate (b + 19 - length rw) (Text []))"
proof (intro conjI impI)
  assume "originalFile p = None"
  then show "exportUploadedExcelWithEstimates p = Threw MissingFile None"
    by (simp add: exportUploadedExcelWithEstimates_def)
next
  assume "originalFile p = Some f \<and> rows p = []"
  then show "exportUploadedExcelWithEstimates p = Threw NoEstimatesProvided None"
    by (simp add: exportUploadedExcelWithEstimates_def)
next
  assume "originalFile p = Some f \<and> rows p \<noteq> [] \<and> SheetNames (workbook f) = []"
  then show "exportUploadedExcelWithEstimates p = Threw NoSheetsFound (Some (workbook f))"
    by (simp add: exportUploadedExcelWithEstimates_def selectSheetName_Nil)
next
  assume "originalFile p = Some f \<and> rows p \<noteq> [] \<and> selectSheetName (workbook f) = Some s
        \<and> getAoa (workbook f) s = Some []"
  then show "exportUploadedExcelWithEstimates p = Threw EmptySheet (Some (workbook f))"
    by (simp add: exportUploadedExcelWithEstimates_def)
next
  assume h: "originalFile p = Some f \<and> rows p \<noteq> [] \<and> selectSheetName (workbook f) = Some s
        \<and> getAoa (workbook f) s = Some a \<and> a \<noteq> []
        \<and> pickColumnIndex (a ! findHeaderRowIndex a) featureCandidates = None
        \<and> pickColumnIndex (a ! findHeaderRowIndex a) featureIndexCandidates = None"
  then have "annotate (rows p) a = None" by (simp add: annotate_None)
  with h show "exportUploadedExcelWithEstimates p = Threw MissingKeyColumn (Some (workbook f))"
    by (simp add: exportUploadedExcelWithEstimates_def)
next
  assume h: "originalFile p = Some f \<and> rows p \<noteq> [] \<and> selectSheetName (workbook f) = Some s
        \<and> getAoa (workbook f) s = Some a \<and> a \<noteq> []
        \<and> (pickColumnIndex (a ! findHeaderRowIndex a) featureCandidates \<noteq> None
           \<or> pickColumnIndex (a ! findHeaderRowIndex a) featureIndexCandidates \<noteq> None)"
  then have "annotate (rows p) a \<noteq> None" by (auto simp: annotate_None)
  then obtain a' where "annotate (rows p) a = Some a'" by auto
  with h show "\<exists>a'. annotate (rows p) a = Some a'
              \<and> exportUploadedExcelWithEstimates p
                  = Downloaded (writeAoa (workbook f) s a') (outName (name f) (outputFileName p))"
    by (simp add: exportUploadedExcelWithEstimates_def)
next
  assume "\<not> isRowEmpty rw \<and> resolveRow rs fic fc h r rw = None"
  then show "fillRow rs fic fc h b r rw = rw @ replicate (b + 19 - length rw) (Text [])"
    by (simp add: fillRow_unmatched pad_def)
qed


theorem export_errors_witness:
  "exportUploadedExcelWithEstimates no_file_params = Threw MissingFile None
   \<and> exportUploadedExcelWithEstimates no_rows_params = Threw NoEstimatesProvided None
   \<and> exportUploadedExcelWithEstimates no_sheets_params
       = Threw NoSheetsFound (Some \<lparr>SheetNames = [], Sheets = []\<rparr>)
   \<and> exportUploadedExcelWithEstimates empty_sheet_params
       = Threw EmptySheet (Some (workbook (single_sheet_file [])))
   \<and> exportUploadedExcelWithEstimates no_key_params
       = Threw MissingKeyColumn
           (Some (workbook (single_sheet_file
              [[Text ''Task'', Text ''Notes''], [Text ''Login'', Text ''-'']])))
   \<and> exportedName (exportUploadedExcelWithEstimates short_records_params) = Some ''out.xlsx''
   \<and> fillRow [login_row] None (Some 0) 0 1 2 [Text ''Delta'']
       = Text ''Delta'' # replicate 19 (Text [])"
proof -
  have c1: "exportUploadedExcelWithEstimates no_file_params = Threw MissingFile None"
  proof -
    have "originalFile no_file_params = None" by code_simp
    then show ?thesis using export_errors [where p = no_file_params] by blast
  qed
  have c2: "exportUploadedExcelWithEstimates no_rows_params = Threw NoEstimatesProvided None"
  proof -
    have "originalFile no_rows_params = Some (single_sheet_file scenario_sheet)
          \<and> rows no_rows_params = []" by code_simp
    then show ?thesis
      using export_errors [where p = no_rows_params and f = "single_sheet_file scenario_sheet"]
      by blast
  qed
  let ?nf = "\<lparr>name = ''plan.xlsx'', workbook = \<lparr>SheetNames = [], Sheets = []\<rparr>\<rparr>"
  have c3: "exportUploadedExcelWithEstimates no_sheets_params
       = Threw NoSheetsFound (Some \<lparr>SheetNames = [], Sheets = []\<rparr>)"
  proof -
    have "originalFile no_sheets_params = Some ?nf \<and> rows no_sheets_params \<noteq> []
          \<and> SheetNames (workbook ?nf) = []" by code_simp
    then have "exportUploadedExcelWithEstimates no_sheets_params
                 = Threw NoSheetsFound (Some (workbook ?nf))"
      using export_errors [where p = no_sheets_params and f = ?nf] by blast
    then show ?thesis by simp
  qed
  have c4: "exportUploadedExcelWithEstimates empty_sheet_params
       = Threw EmptySheet (Some (workbook (single_sheet_file [])))"
  proof -
    have "originalFile empty_sheet_params = Some (single_sheet_file [])
          \<and> rows empty_sheet_params \<noteq> []
          \<and> selectSheetName (workbook (single_sheet_file [])) = Some ''Features''
          \<and> getAoa (workbook (single_sheet_file [])) ''Features'' = Some []" by code_simp
    then show ?thesis
      using export_errors [where p = empty_sheet_params and f = "single_sheet_file []"
          and s = "''Features''"] by blast
  qed
  let ?ka = "[[Text ''Task'', Text ''Notes''], [Text ''Login'', Text ''-'']]"
  have c5: "exportUploadedExcelWithEstimates no_key_params
       = Threw MissingKeyColumn (Some (workbook (single_sheet_file ?ka)))"
  proof -
    have "originalFile no_key_params = Some (single_sheet_file ?ka)
          \<and> rows no_key_params \<noteq> []
          \<and> selectSheetName (workbook (single_sheet_file ?ka)) = Some ''Features''
          \<and> getAoa (workbook (single_sheet_file ?ka)) ''Features'' = Some ?ka \<and> ?ka \<noteq> []
          \<and> pickColumnIndex (?ka ! findHeaderRowIndex ?ka) featureCandidates = None
          \<and> pickColumnIndex (?ka ! findHeaderRowIndex ?ka) featureIndexCandidates = None"
      by code_simp
    then show ?thesis
      using export_errors [where p = no_key_params and f = "single_sheet_file ?ka"
          and s = "''Features''" and a = ?ka] by blast
  qed
  let ?sa = "[[Text ''Feature''], [Text ''Gamma''], [Text ''Delta'']]"
  have c6: "exportedName (exportUploadedExcelWithEstimates short_records_params) = Some ''out.xlsx''"
  proof -
    have "originalFile short_records_params = Some (single_sheet_file ?sa)
          \<and> rows short_records_params \<noteq> []
          \<and> selectSheetName (workbook (single_sheet_file ?sa)) = Some ''Features''
          \<and> getAoa (workbook (single_sheet_file ?sa)) ''Features'' = Some ?sa \<and> ?sa \<noteq> []
          \<and> (pickColumnIndex (?sa ! findHeaderRowIndex ?sa) featureCandidates \<noteq> None
             \<or> pickColumnIndex (?sa ! findHeaderRowIndex ?sa) featureIndexCandidates \<noteq> None)"
      by code_simp
    then have "\<exists>a'. exportUploadedExcelWithEstimates short_records_params
        = Downloaded (writeAoa (workbook (single_sheet_file ?sa)) ''Features'' a')
            (outName (name (single_sheet_file ?sa)) (outputFileName short_records_params))"
      using export_errors [where p = short_records_params and f = "single_sheet_file ?sa"
          and s = "''Features''" and a = ?sa] by blast
    moreover have "outName (name (single_sheet_file ?sa)) (outputFileName short_records_params)
        = ''out.xlsx''" by code_simp
    ultimately show ?thesis by (auto simp: exportedName_def)
  qed
  have c7: "fillRow [login_row] None (Some 0) 0 1 2 [Text ''Delta'']
       = Text ''Delta'' # replicate 19 (Text [])"
  proof -
    have "\<not> isRowEmpty [Text ''Delta'']
          \<and> resolveRow [login_row] None (Some 0) 0 2 [Text ''Delta''] = None" by code_simp
    then have "fillRow [login_row] None (Some 0) 0 1 2 [Text ''Delta'']
        = [Text ''Delta''] @ replicate (1 + 19 - length [Text ''Delta'']) (Text [])"
      using export_errors [where rw = "[Text ''Delta'']" and rs = "[login_row]" and fic = None
          and fc = "Some 0" and h = 0 and r = 2 and b = 1] by blast
    then show ?thesis by simp
  qed
  from c1 c2 c3 c4 c5 c6 c7 show ?thesis by blast
qed







lemma length_toLowerCase: "length (toLowerCase s) = length s"
  by (simp add: toLowerCase_def)

lemma ends_with_ci_append:
  "length e = length suffix \<Longrightarrow> ends_with_ci (stem @ e) suffix \<longleftrightarrow> toLowerCase e = suffix"
  by (simp add: ends_with_ci_def)

lemma ends_with_ci_last:
  assumes "ends_with_ci s suffix" and "suffix \<noteq> []"
  shows "lower_char (last s) = last suffix"
proof -
  let ?d = "drop (length s - length suffix) s"
  from assms have d: "map lower_char ?d = suffix"
    by (simp add: ends_with_ci_def toLowerCase_def)
  with assms(2) have ne: "?d \<noteq> []" by auto
  then have "last ?d = last s" by (simp add: last_drop)
  moreover have "last (map lower_char ?d) = lower_char (last ?d)"
    using ne by (rule last_map)
  ultimately show ?thesis using d by simp
qed

lemma baseName_xlsx:
  assumes "toLowerCase e = ''.xlsx''"
  shows "baseName (stem @ e) = stem"
proof -
  have le: "length e = length ''.xlsx''" using length_toLowerCase [of e] assms by simp
  then have "ends_with_ci (stem @ e) ''.xlsx''" using assms by (simp only: ends_with_ci_append)
  then show ?thesis using le by (simp add: baseName_def)
qed

lemma baseName_xls:
  assumes "toLowerCase e = ''.xls''"
  shows "baseName (stem @ e) = stem"
proof -
  have le: "length e = length ''.xls''" using length_toLowerCase [of e] assms by simp
  then have y: "ends_with_ci (stem @ e) ''.xls''" using assms by (simp only: ends_with_ci_append)
  then have "lower_char (last (stem @ e)) = last ''.xls''"
    by (rule ends_with_ci_last) simp
  then have "lower_char (last (stem @ e)) \<noteq> last ''.xlsx''" by simp
  then have n: "\<not> ends_with_ci (stem @ e) ''.xlsx''"
    using ends_with_ci_last [of "stem @ e" "''.xlsx''"] by auto
  show ?thesis using y n le by (simp add: baseName_def)
qed

text \<open>
  Claim C7, as amended. Without an explicit output name the suggested name is the base
  name of the original file, that is its name without a final \<open>.xlsx\<close> or \<open>.xls\<close> in
  any letter case, followed by \<open>_with_estimates.xlsx\<close>: the extension of the output
  is always \<open>xlsx\<close>. An explicit output name is used as it is.
\<close>

theorem output_name_always_xlsx:
  assumes "exportUploadedExcelWithEstimates p = Downloaded wb' n"
    and "originalFile p = Some f"
  shows "(outputFileName p = None \<longrightarrow> n = baseName (name f) @ ''_with_estimates.xlsx'')
         \<and> (\<forall>g. outputFileName p = Some g \<longrightarrow> n = g)
         \<and> (\<forall>stem e. name f = stem @ e \<and> (toLowerCase e = ''.xlsx'' \<or> toLowerCase e = ''.xls'')
               \<longrightarrow> baseName (name f) = stem)"
proof -
  from assms(1) obtain f0 where "originalFile p = Some f0"
    "n = outName (name f0) (outputFileName p)"
    by (rule export_Downloaded)
  with assms(2) have n: "n = outName (name f) (outputFileName p)" by simp
  have "baseName (name f) = stem"
    if "name f = stem @ e \<and> (toLowerCase e = ''.xlsx'' \<or> toLowerCase e = ''.xls'')" for stem e
    using that baseName_xlsx [of e stem] baseName_xls [of e stem] by auto
  with n show ?thesis by (auto simp: outName_def)
qed

theorem output_name_always_xlsx_witness:
  "exportedName (exportUploadedExcelWithEstimates scenario_params)
     = Some (''plan'' @ ''_with_estimates.xlsx'')
   \<and> exportedName (exportUploadedExcelWithEstimates short_records_params) = Some ''out.xlsx''
   \<and> baseName ''plan.xls'' = ''plan''"
proof -
  let ?f = "\<lparr>name = ''plan.xls'', workbook = scenario_workbook\<rparr>"
  obtain wb1 n1 where ex1: "exportUploadedExcelWithEstimates scenario_params = Downloaded wb1 n1"
    by (cases "exportUploadedExcelWithEstimates scenario_params") (simp_all, code_simp)
  have f1: "originalFile scenario_params = Some ?f" by code_simp
  have o1: "outputFileName scenario_params = None" by code_simp
  have nm: "name ?f = ''plan'' @ ''.xls'' \<and> (toLowerCase ''.xls'' = ''.xlsx'' \<or> toLowerCase ''.xls'' = ''.xls'')"
    by code_simp
  note t1 = output_name_always_xlsx [OF ex1 f1]
  have b: "baseName (name ?f) = ''plan''"
    using nm by (rule t1 [THEN conjunct2, THEN conjunct2, rule_format])
  have "n1 = baseName (name ?f) @ ''_with_estimates.xlsx''"
    using o1 by (rule t1 [THEN conjunct1, rule_format])
  then have c1: "exportedName (exportUploadedExcelWithEstimates scenario_params)
     = Some (''plan'' @ ''_with_estimates.xlsx'')"
    unfolding b by (simp add: ex1 exportedName_def)
  let ?g = "single_sheet_file [[Text ''Feature''], [Text ''Gamma''], [Text ''Delta'']]"
  obtain wb2 n2 where ex2: "exportUploadedExcelWithEstimates short_records_params = Downloaded wb2 n2"
    by (cases "exportUploadedExcelWithEstimates short_records_params") (simp_all, code_simp)
  have f2: "originalFile short_records_params = Some ?g" by code_simp
  have o2: "outputFileName short_records_params = Some ''out.xlsx''" by code_simp
  have "n2 = ''out.xlsx''"
    using o2 by (rule output_name_always_xlsx [OF ex2 f2, THEN conjunct2, THEN conjunct1,
          rule_format])
  then have c2: "exportedName (exportUploadedExcelWithEstimates short_records_params)
     = Some ''out.xlsx''"
    by (simp add: ex2 exportedName_def)
  have c3: "baseName ''plan.xls'' = ''plan''" using b by simp
  from c1 c2 c3 show ?thesis by (intro conjI)
qed

text \<open>
  The claim as stated fails for a file of the older format: the original extension is
  \<open>xls\<close>, the suggested name ends in \<open>xlsx\<close>.
\<close>

theorem xls_name_gets_xlsx_suffix:
  "originalFile scenario_params = Some \<lparr>name = ''plan.xls'', workbook = scenario_workbook\<rparr>
   \<and> outputFileName scenario_params = None
   \<and> exportedName (exportUploadedExcelWithEstimates scenario_params)
       = Some ''plan_with_estimates.xlsx''
   \<and> exportedName (exportUploadedExcelWithEstimates scenario_params)
       \<noteq> Some (''plan'' @ ''_with_estimates.'' @ ''xls'')"
  by code_simp
end
